theory Spec2Isabelle
  imports Complex_Main
begin

section \<open>JavaScript numbers, strings and Date objects\<close>

text \<open>
  The TypeScript sources compute with the built-in \<^verbatim>\<open>Date\<close> object, with numbers and
  with template strings. This section models the part of ECMA-262 they use.

  \<^item> A number that the code obtains from a \<^verbatim>\<open>Date\<close> getter is an integer or \<^verbatim>\<open>NaN\<close>:
    \<open>num\<close> is \<open>int option\<close>, with \<open>None\<close> for \<^verbatim>\<open>NaN\<close>.
  \<^item> A \<^verbatim>\<open>Date\<close> object is its time value, the milliseconds since the epoch, or
    \<^verbatim>\<open>NaN\<close> for an invalid date: \<open>jsdate\<close> is \<open>int option\<close> too. Valid time values are
    unbounded integers here; the clipping of ECMA-262 to \<open>\<plusminus>8.64e15\<close> ms (the years
    \<open>\<plusminus>275760\<close>) is not modelled.
  \<^item> Local time is UTC plus a fixed offset \<open>tz\<close> in milliseconds, the first argument of
    every function that reads or writes local fields. Zones that change their offset
    (daylight saving time) are outside the model.
\<close>

type_synonym num = "int option"

type_synonym jsdate = "int option"

definition num_add :: "num \<Rightarrow> num \<Rightarrow> num" where
  "num_add a b = (case (a, b) of (Some x, Some y) \<Rightarrow> Some (x + y) | _ \<Rightarrow> None)"

definition num_sub :: "num \<Rightarrow> num \<Rightarrow> num" where
  "num_sub a b = (case (a, b) of (Some x, Some y) \<Rightarrow> Some (x - y) | _ \<Rightarrow> None)"

text \<open>\<^verbatim>\<open>a || k\<close> on a number: \<^verbatim>\<open>0\<close> and \<^verbatim>\<open>NaN\<close> are falsy.\<close>

definition num_or :: "num \<Rightarrow> int \<Rightarrow> num" where
  "num_or a k = (case a of None \<Rightarrow> Some k | Some x \<Rightarrow> if x = 0 then Some k else Some x)"

text \<open>Relational operators on two dates compare the time values; with \<^verbatim>\<open>NaN\<close> they are false.\<close>

definition date_le :: "jsdate \<Rightarrow> jsdate \<Rightarrow> bool" where
  "date_le a b = (case (a, b) of (Some x, Some y) \<Rightarrow> x \<le> y | _ \<Rightarrow> False)"

definition date_ge :: "jsdate \<Rightarrow> jsdate \<Rightarrow> bool" where
  "date_ge a b = (case (a, b) of (Some x, Some y) \<Rightarrow> x \<ge> y | _ \<Rightarrow> False)"

subsection \<open>Day number, year, month and date (ECMA-262, 21.4.1)\<close>

definition msPerDay :: int where
  "msPerDay = 86400000"

definition Day :: "int \<Rightarrow> int" where
  "Day t = t div msPerDay"

definition TimeWithinDay :: "int \<Rightarrow> int" where
  "TimeWithinDay t = t mod msPerDay"

definition DaysInYear :: "int \<Rightarrow> int" where
  "DaysInYear y =
     (if y mod 4 \<noteq> 0 then 365 else if y mod 100 \<noteq> 0 then 366
      else if y mod 400 \<noteq> 0 then 365 else 366)"

definition DayFromYear :: "int \<Rightarrow> int" where
  "DayFromYear y =
     365 * (y - 1970) + (y - 1969) div 4 - (y - 1901) div 100 + (y - 1601) div 400"

text \<open>
  ECMA-262 specifies \<open>YearFromTime t\<close> as the largest \<open>y\<close> with
  \<open>DayFromYear y \<le> Day t\<close>. The executable form counts 400-, 100-, 4- and 1-year
  cycles from 1 January 1601, which is day \<open>-134774\<close>: a cycle of 400 years has 146097
  days, a century 36524 (the fourth one a day more), four years 1461, a year 365 (the
  fourth one a day more). Lemma \<open>YearFromTime_bounds\<close> below shows that the result is the
  year ECMA-262 specifies.
\<close>

definition yearIn100 :: "int \<Rightarrow> int" where
  "yearIn100 d = 4 * (d div 1461) + min (d mod 1461 div 365) 3"

definition yearIn400 :: "int \<Rightarrow> int" where
  "yearIn400 d =
     (if d < 109572 then 100 * (d div 36524) + yearIn100 (d mod 36524)
      else 300 + yearIn100 (d - 109572))"

definition YearFromDay :: "int \<Rightarrow> int" where
  "YearFromDay d =
     1601 + 400 * ((d + 134774) div 146097) + yearIn400 ((d + 134774) mod 146097)"

definition YearFromTime :: "int \<Rightarrow> int" where
  "YearFromTime t = YearFromDay (Day t)"

definition InLeapYear :: "int \<Rightarrow> int" where
  "InLeapYear t = (if DaysInYear (YearFromTime t) = 366 then 1 else 0)"

definition DayWithinYear :: "int \<Rightarrow> int" where
  "DayWithinYear t = Day t - DayFromYear (YearFromTime t)"

text \<open>The number of days of a year that precede month \<open>m\<close> (0 to 11); \<open>l\<close> is 1 in a leap year.\<close>

definition monthStart :: "int \<Rightarrow> int \<Rightarrow> int" where
  "monthStart m l =
     (if m = 0 then 0 else if m = 1 then 31 else if m = 2 then 59 + l
      else if m = 3 then 90 + l else if m = 4 then 120 + l else if m = 5 then 151 + l
      else if m = 6 then 181 + l else if m = 7 then 212 + l else if m = 8 then 243 + l
      else if m = 9 then 273 + l else if m = 10 then 304 + l else 334 + l)"

definition monthOfDay :: "int \<Rightarrow> int \<Rightarrow> int" where
  "monthOfDay d l =
     (if d < 31 then 0 else if d < 59 + l then 1 else if d < 90 + l then 2
      else if d < 120 + l then 3 else if d < 151 + l then 4 else if d < 181 + l then 5
      else if d < 212 + l then 6 else if d < 243 + l then 7 else if d < 273 + l then 8
      else if d < 304 + l then 9 else if d < 334 + l then 10 else 11)"

definition MonthFromTime :: "int \<Rightarrow> int" where
  "MonthFromTime t = monthOfDay (DayWithinYear t) (InLeapYear t)"

definition DateFromTime :: "int \<Rightarrow> int" where
  "DateFromTime t = DayWithinYear t - monthStart (MonthFromTime t) (InLeapYear t) + 1"

definition WeekDay :: "int \<Rightarrow> int" where
  "WeekDay t = (Day t + 4) mod 7"

definition HourFromTime :: "int \<Rightarrow> int" where
  "HourFromTime t = (t div 3600000) mod 24"

definition MakeTime :: "int \<Rightarrow> int \<Rightarrow> int \<Rightarrow> int \<Rightarrow> int" where
  "MakeTime h m s ms = h * 3600000 + m * 60000 + s * 1000 + ms"

text \<open>\<open>MakeDay\<close> accepts any month and date: months carry into the year, dates into the days.\<close>

definition MakeDay :: "int \<Rightarrow> int \<Rightarrow> int \<Rightarrow> int" where
  "MakeDay y m dt =
     DayFromYear (y + m div 12)
       + monthStart (m mod 12) (if DaysInYear (y + m div 12) = 366 then 1 else 0) + dt - 1"

definition MakeDate :: "int \<Rightarrow> int \<Rightarrow> int" where
  "MakeDate day time = day * msPerDay + time"

definition LocalTime :: "int \<Rightarrow> int \<Rightarrow> int" where
  "LocalTime tz t = t + tz"

definition UTC :: "int \<Rightarrow> int \<Rightarrow> int" where
  "UTC tz t = t - tz"

subsection \<open>The methods of Date that the sources call\<close>

definition getTime :: "jsdate \<Rightarrow> num" where
  "getTime d = d"

definition getFullYear :: "int \<Rightarrow> jsdate \<Rightarrow> num" where
  "getFullYear tz d = (case d of None \<Rightarrow> None | Some t \<Rightarrow> Some (YearFromTime (LocalTime tz t)))"

definition getMonth :: "int \<Rightarrow> jsdate \<Rightarrow> num" where
  "getMonth tz d = (case d of None \<Rightarrow> None | Some t \<Rightarrow> Some (MonthFromTime (LocalTime tz t)))"

definition getDate :: "int \<Rightarrow> jsdate \<Rightarrow> num" where
  "getDate tz d = (case d of None \<Rightarrow> None | Some t \<Rightarrow> Some (DateFromTime (LocalTime tz t)))"

definition getDay :: "int \<Rightarrow> jsdate \<Rightarrow> num" where
  "getDay tz d = (case d of None \<Rightarrow> None | Some t \<Rightarrow> Some (WeekDay (LocalTime tz t)))"

definition getHours :: "int \<Rightarrow> jsdate \<Rightarrow> num" where
  "getHours tz d = (case d of None \<Rightarrow> None | Some t \<Rightarrow> Some (HourFromTime (LocalTime tz t)))"

text \<open>\<^verbatim>\<open>d.setHours(h, m, s, ms)\<close>: the local day is kept, the time within it replaced.\<close>

definition setHours :: "int \<Rightarrow> jsdate \<Rightarrow> int \<Rightarrow> int \<Rightarrow> int \<Rightarrow> int \<Rightarrow> jsdate" where
  "setHours tz d h m s ms =
     (case d of
        None \<Rightarrow> None
      | Some t \<Rightarrow> Some (UTC tz (MakeDate (Day (LocalTime tz t)) (MakeTime h m s ms))))"

text \<open>\<^verbatim>\<open>d.setDate(n)\<close>: local year, month and time within the day are kept.\<close>

definition setDate :: "int \<Rightarrow> jsdate \<Rightarrow> num \<Rightarrow> jsdate" where
  "setDate tz d n =
     (case (d, n) of
        (Some t, Some dt) \<Rightarrow>
          Some (UTC tz (MakeDate (MakeDay (YearFromTime (LocalTime tz t))
                                          (MonthFromTime (LocalTime tz t)) dt)
                                 (TimeWithinDay (LocalTime tz t))))
      | _ \<Rightarrow> None)"

text \<open>
  \<^verbatim>\<open>new Date(year, monthIndex, day)\<close>: local midnight of that day. A year from 0 to 99
  stands for 1900 plus the year, as the constructor has it.
\<close>

definition newDateYMD :: "int \<Rightarrow> num \<Rightarrow> int \<Rightarrow> int \<Rightarrow> jsdate" where
  "newDateYMD tz year monthIndex day =
     (case year of
        None \<Rightarrow> None
      | Some y \<Rightarrow>
          Some (UTC tz (MakeDate (MakeDay (if 0 \<le> y \<and> y \<le> 99 then 1900 + y else y)
                                          monthIndex day)
                                 (MakeTime 0 0 0 0))))"

subsection \<open>Numbers as strings\<close>

definition digitChar :: "nat \<Rightarrow> char" where
  "digitChar n = ''0123456789'' ! n"

fun natToString :: "nat \<Rightarrow> string" where
  "natToString n =
     (if n < 10 then [digitChar n] else natToString (n div 10) @ [digitChar (n mod 10)])"

declare natToString.simps [simp del]

text \<open>\<^verbatim>\<open>String(n)\<close> and \<^verbatim>\<open>`${n}`\<close> for an integer or \<^verbatim>\<open>NaN\<close>.\<close>

definition numToString :: "num \<Rightarrow> string" where
  "numToString n =
     (case n of
        None \<Rightarrow> ''NaN''
      | Some i \<Rightarrow> if i < 0 then CHR ''-'' # natToString (nat (- i)) else natToString (nat i))"

text \<open>\<^verbatim>\<open>s.padStart(2, '0')\<close>.\<close>

definition padStart2 :: "string \<Rightarrow> string" where
  "padStart2 s = replicate (2 - length s) CHR ''0'' @ s"

subsection \<open>The executable year is the year of ECMA-262\<close>

lemma DayFromYear_1601:
  "DayFromYear y =
     365 * (y - 1601) + (y - 1601) div 4 - (y - 1601) div 100 + (y - 1601) div 400 - 134774"
proof -
  have a: "(y - 1969) div 4 = (y - 1601) div 4 - 92" by linarith
  have b: "(y - 1901) div 100 = (y - 1601) div 100 - 3" by linarith
  have "DayFromYear y = 365 * (y - 1970) + ((y - 1601) div 4 - 92)
          - ((y - 1601) div 100 - 3) + (y - 1601) div 400"
    unfolding DayFromYear_def by (simp only: a b)
  then show ?thesis by simp
qed

lemma DayFromYear_cycles:
  fixes a b c e :: int
  assumes y: "y = 1601 + 400 * a + 100 * b + 4 * c + e"
    and "0 \<le> b" "b \<le> 3" "0 \<le> c" "c \<le> 24" "0 \<le> e" "e \<le> 3"
  shows "DayFromYear y = 146097 * a + 36524 * b + 1461 * c + 365 * e - 134774"
proof -
  define X where "X = 400 * a + 100 * b + 4 * c + e"
  have x4: "X div 4 = 100 * a + 25 * b + c" unfolding X_def using assms by linarith
  have x100: "X div 100 = 4 * a + b" unfolding X_def using assms by linarith
  have x400: "X div 400 = a" unfolding X_def using assms by linarith
  have e: "y - 1601 = X" by (simp add: X_def y)
  have "DayFromYear y = 365 * X + X div 4 - X div 100 + X div 400 - 134774"
    unfolding DayFromYear_1601 e ..
  also have "\<dots> = 146097 * a + 36524 * b + 1461 * c + 365 * e - 134774"
    unfolding x4 x100 x400 by (simp add: X_def)
  finally show ?thesis .
qed

lemma YearFromDay_bounds:
  "DayFromYear (YearFromDay d) \<le> d \<and> d < DayFromYear (YearFromDay d + 1)"
proof -
  define x where "x = d + 134774"
  define a where "a = x div 146097"
  define d1 where "d1 = x mod 146097"
  define b where "b = (if d1 < 109572 then d1 div 36524 else 3)"
  define d2 where "d2 = d1 - b * 36524"
  define c where "c = d2 div 1461"
  define d3 where "d3 = d2 mod 1461"
  define e where "e = min (d3 div 365) 3"
  have xa: "x = 146097 * a + d1" and d1: "0 \<le> d1" "d1 < 146097"
    unfolding a_def d1_def by simp_all
  have "0 \<le> d1 div 36524" using d1 by simp
  moreover have "d1 < 109572 \<Longrightarrow> d1 div 36524 \<le> 2" by linarith
  ultimately have b: "0 \<le> b" "b \<le> 3" unfolding b_def by auto
  have d2m: "d1 < 109572 \<Longrightarrow> d2 = d1 mod 36524"
    unfolding d2_def b_def by (simp add: minus_div_mult_eq_mod)
  have d2: "0 \<le> d2" "d2 < 36525" "b < 3 \<Longrightarrow> d2 < 36524"
  proof -
    have lt: "d1 < 109572 \<Longrightarrow> 0 \<le> d2 \<and> d2 < 36524"
      using d2m by simp
    have ge: "\<not> d1 < 109572 \<Longrightarrow> d2 = d1 - 109572 \<and> b = 3"
      by (simp add: d2_def b_def)
    show "0 \<le> d2" using lt ge by (cases "d1 < 109572") simp_all
    show "d2 < 36525" using lt ge d1 by (cases "d1 < 109572") simp_all
    show "b < 3 \<Longrightarrow> d2 < 36524" using lt ge by (cases "d1 < 109572") simp_all
  qed
  have y100: "yearIn100 d2 = 4 * c + e"
    unfolding yearIn100_def c_def d3_def e_def ..
  have y400: "yearIn400 d1 = 100 * b + yearIn100 d2"
  proof (cases "d1 < 109572")
    case True
    then show ?thesis unfolding yearIn400_def d2m[OF True] b_def by simp
  next
    case False
    then show ?thesis unfolding yearIn400_def d2_def b_def by simp
  qed
  have "YearFromDay d = 1601 + 400 * a + yearIn400 d1"
    unfolding YearFromDay_def a_def d1_def x_def ..
  then have Y: "YearFromDay d = 1601 + 400 * a + 100 * b + 4 * c + e"
    unfolding y400 y100 by simp
  have c: "0 \<le> c" "c \<le> 24" unfolding c_def using d2 by linarith+
  have d2c: "d2 = 1461 * c + d3" and d3: "0 \<le> d3" "d3 < 1461"
    unfolding c_def d3_def by simp_all
  have e: "0 \<le> e" "e \<le> 3" unfolding e_def using d3 by simp_all
  define q where "q = d3 div 365"
  define r where "r = d3 mod 365"
  have qr: "365 * q + r = d3" "0 \<le> r" "r < 365" unfolding q_def r_def by simp_all
  have q1: "365 * q \<le> d3" using qr by linarith
  have q2: "d3 < 365 * q + 365" using qr by linarith
  have q3: "0 \<le> q" using qr d3 by linarith
  have e365: "365 * e \<le> d3" "e < 3 \<Longrightarrow> d3 < 365 * e + 365"
    unfolding e_def q_def[symmetric] using q1 q2 q3 by (auto simp: min_def split: if_splits)
  have xs: "x = 146097 * a + 36524 * b + 1461 * c + d3"
    using xa d2c d2_def by linarith
  have "DayFromYear (YearFromDay d) = 146097 * a + 36524 * b + 1461 * c + 365 * e - 134774"
    by (rule DayFromYear_cycles[OF Y b c e])
  then have lo: "DayFromYear (YearFromDay d) \<le> d"
    using xs e365(1) x_def by linarith
  have hi: "d < DayFromYear (YearFromDay d + 1)"
  proof (cases "e < 3")
    case True
    have "DayFromYear (YearFromDay d + 1)
            = 146097 * a + 36524 * b + 1461 * c + 365 * (e + 1) - 134774"
      by (rule DayFromYear_cycles) (use Y b c e True in simp_all)
    then have "DayFromYear (YearFromDay d + 1)
            = 146097 * a + 36524 * b + 1461 * c + 365 * e + 365 - 134774"
      by (simp add: algebra_simps)
    then show ?thesis using xs e365(2)[OF True] x_def by linarith
  next
    case e3: False
    then have e3': "e = 3" using e by simp
    show ?thesis
    proof (cases "c < 24")
      case True
      have "DayFromYear (YearFromDay d + 1)
              = 146097 * a + 36524 * b + 1461 * (c + 1) + 365 * 0 - 134774"
        by (rule DayFromYear_cycles) (use Y e3' b c True in simp_all)
      then have "DayFromYear (YearFromDay d + 1)
              = 146097 * a + 36524 * b + 1461 * c + 1461 - 134774"
        by (simp add: algebra_simps)
      then show ?thesis using xs d3 x_def by linarith
    next
      case c24: False
      then have c24': "c = 24" using c by simp
      show ?thesis
      proof (cases "b < 3")
        case True
        have "DayFromYear (YearFromDay d + 1)
                = 146097 * a + 36524 * (b + 1) + 1461 * 0 + 365 * 0 - 134774"
          by (rule DayFromYear_cycles) (use Y e3' c24' b True in simp_all)
        then have "DayFromYear (YearFromDay d + 1) = 146097 * a + 36524 * b + 36524 - 134774"
          by (simp add: algebra_simps)
        then show ?thesis using xa d2(3)[OF True] d2_def x_def by linarith
      next
        case False
        then have b3: "b = 3" using b by simp
        have "DayFromYear (YearFromDay d + 1)
                = 146097 * (a + 1) + 36524 * 0 + 1461 * 0 + 365 * 0 - 134774"
          by (rule DayFromYear_cycles) (use Y e3' c24' b3 in simp_all)
        then have "DayFromYear (YearFromDay d + 1) = 146097 * a + 146097 - 134774"
          by (simp add: algebra_simps)
        then show ?thesis using xa d1 x_def by linarith
      qed
    qed
  qed
  from lo hi show ?thesis ..
qed

lemma YearFromTime_bounds:
  "DayFromYear (YearFromTime t) \<le> Day t \<and> Day t < DayFromYear (YearFromTime t + 1)"
  unfolding YearFromTime_def by (rule YearFromDay_bounds)

subsection \<open>Dates within the year\<close>

lemma monthOfDay_range: "0 \<le> monthOfDay d l \<and> monthOfDay d l \<le> 11"
  by (simp add: monthOfDay_def)

lemma MakeDay_of_fields:
  "MakeDay (YearFromTime t) (MonthFromTime t) (DateFromTime t + k) = Day t + k"
proof -
  have m: "0 \<le> MonthFromTime t" "MonthFromTime t \<le> 11"
    using monthOfDay_range by (simp_all add: MonthFromTime_def)
  then have "MonthFromTime t div 12 = 0" "MonthFromTime t mod 12 = MonthFromTime t"
    by simp_all
  then show ?thesis
    by (simp add: MakeDay_def DateFromTime_def DayWithinYear_def InLeapYear_def)
qed

lemma day_decompose: "Day t * msPerDay + TimeWithinDay t = t"
  by (simp add: Day_def TimeWithinDay_def)

lemma setDate_getDate:
  "setDate tz (Some t) (num_add (getDate tz (Some t)) (Some k)) = Some (t + k * msPerDay)"
proof -
  have "MakeDate (Day (LocalTime tz t) + k) (TimeWithinDay (LocalTime tz t))
          = LocalTime tz t + k * msPerDay"
    using day_decompose[of "LocalTime tz t"] by (simp add: MakeDate_def algebra_simps)
  then show ?thesis
    by (simp add: setDate_def getDate_def num_add_def MakeDay_of_fields UTC_def LocalTime_def)
qed

section \<open>The Map object\<close>

text \<open>
  A \<^verbatim>\<open>Map\<close> keeps its keys in insertion order, and \<^verbatim>\<open>set\<close> on a key that is present
  replaces the value in place: an association list with distinct keys.
\<close>

primrec map_set :: "('k \<times> 'v) list \<Rightarrow> 'k \<Rightarrow> 'v \<Rightarrow> ('k \<times> 'v) list" where
  "map_set [] k v = [(k, v)]"
| "map_set (p # ps) k v = (if fst p = k then (k, v) # ps else p # map_set ps k v)"

definition map_get :: "('k \<times> 'v) list \<Rightarrow> 'k \<Rightarrow> 'v option" where
  "map_get m k = map_of m k"

definition map_has :: "('k \<times> 'v) list \<Rightarrow> 'k \<Rightarrow> bool" where
  "map_has m k = (map_of m k \<noteq> None)"

definition map_keys :: "('k \<times> 'v) list \<Rightarrow> 'k list" where
  "map_keys m = map fst m"

text \<open>\<^verbatim>\<open>m.set(k, (m.get(k) ?? 0) + 1)\<close>.\<close>

definition increment :: "('k \<times> nat) list \<Rightarrow> 'k \<Rightarrow> ('k \<times> nat) list" where
  "increment m k = map_set m k ((case map_get m k of None \<Rightarrow> 0 | Some n \<Rightarrow> n) + 1)"

section \<open>Commits and the period formatter (aggregator.ts)\<close>

record commit =
  revision :: rat
  author :: string
  date :: jsdate
  message :: string

record date_range =
  rangeStart :: jsdate
  rangeEnd :: jsdate

datatype error = Error string | RangeError

text \<open>\<^verbatim>\<open>getIsoWeek\<close>: the date moves to local midnight and then to the Thursday of its week.\<close>

definition getIsoWeek :: "int \<Rightarrow> jsdate \<Rightarrow> num \<times> num" where
  "getIsoWeek tz d0 =
     (let d1 = setHours tz d0 0 0 0 0;
          d2 = setDate tz d1 (num_sub (num_add (getDate tz d1) (Some 4)) (num_or (getDay tz d1) 7));
          yearStart = newDateYMD tz (getFullYear tz d2) 0 1;
          weekNo = (case (getTime d2, getTime yearStart) of
                      (Some a, Some b) \<Rightarrow> Some \<lceil>((of_int (a - b) :: rat) / 86400000 + 1) / 7\<rceil>
                    | _ \<Rightarrow> None)
      in (getFullYear tz d2, weekNo))"

definition formatDay :: "int \<Rightarrow> jsdate \<Rightarrow> string" where
  "formatDay tz d0 =
     numToString (getFullYear tz d0) @ ''-''
       @ padStart2 (numToString (num_add (getMonth tz d0) (Some 1))) @ ''-''
       @ padStart2 (numToString (getDate tz d0))"

definition formatWeek :: "int \<Rightarrow> jsdate \<Rightarrow> string" where
  "formatWeek tz d0 =
     (case getIsoWeek tz d0 of
        (year, week) \<Rightarrow> numToString year @ ''-W'' @ padStart2 (numToString week))"

definition formatMonth :: "int \<Rightarrow> jsdate \<Rightarrow> string" where
  "formatMonth tz d0 =
     numToString (getFullYear tz d0) @ ''-''
       @ padStart2 (numToString (num_add (getMonth tz d0) (Some 1)))"

section \<open>The fixed-range aggregation (aggregator.ts, aggregateCommits)\<close>

record aggregatedData =
  daily :: "(string \<times> nat) list"
  weekly :: "(string \<times> nat) list"
  monthly :: "(string \<times> nat) list"
  userDaily :: "(string \<times> (string \<times> nat) list) list"
  userWeekly :: "(string \<times> (string \<times> nat) list) list"
  userMonthly :: "(string \<times> (string \<times> nat) list) list"
  dateRange :: date_range

text \<open>
  The loop \<^verbatim>\<open>while (current <= normalizedEnd)\<close> that initialises every period with 0 and
  moves \<open>current\<close> on by \<^verbatim>\<open>current.setDate(current.getDate() + 1)\<close>.
\<close>

function initPeriods :: "int \<Rightarrow> jsdate \<Rightarrow> jsdate \<Rightarrow> aggregatedData \<Rightarrow> aggregatedData" where
  "initPeriods tz current normalizedEnd acc =
     (if date_le current normalizedEnd
      then initPeriods tz (setDate tz current (num_add (getDate tz current) (Some 1)))
             normalizedEnd
             (acc\<lparr>daily := map_set (daily acc) (formatDay tz current) 0,
                  weekly := map_set (weekly acc) (formatWeek tz current) 0,
                  monthly := map_set (monthly acc) (formatMonth tz current) 0\<rparr>)
      else acc)"
  by pat_completeness auto
termination
proof (relation "measure (\<lambda>(tz, current, normalizedEnd, acc).
          case (current, normalizedEnd) of (Some c, Some e) \<Rightarrow> nat (e - c + 1) | _ \<Rightarrow> 0)")
  show "wf (measure (\<lambda>(tz, current, normalizedEnd, acc).
          case (current, normalizedEnd) of (Some c, Some e) \<Rightarrow> nat (e - c + 1) | _ \<Rightarrow> 0))"
    by simp
next
  fix tz :: int and current normalizedEnd :: jsdate and acc :: aggregatedData
  assume le: "date_le current normalizedEnd"
  then obtain c e where ce: "current = Some c" "normalizedEnd = Some e" "c \<le> e"
    by (auto simp: date_le_def split: option.splits)
  have "setDate tz current (num_add (getDate tz current) (Some 1)) = Some (c + 1 * msPerDay)"
    unfolding ce by (rule setDate_getDate)
  then show "((tz, setDate tz current (num_add (getDate tz current) (Some 1)), normalizedEnd,
               acc\<lparr>daily := map_set (daily acc) (formatDay tz current) 0,
                    weekly := map_set (weekly acc) (formatWeek tz current) 0,
                    monthly := map_set (monthly acc) (formatMonth tz current) 0\<rparr>),
              (tz, current, normalizedEnd, acc))
             \<in> measure (\<lambda>(tz, current, normalizedEnd, acc).
                  case (current, normalizedEnd) of (Some c, Some e) \<Rightarrow> nat (e - c + 1) | _ \<Rightarrow> 0)"
    using ce by (simp add: msPerDay_def)
qed

declare initPeriods.simps [simp del]

text \<open>
  The body of \<^verbatim>\<open>for (const commit of filteredCommits)\<close>. The author's maps are created
  on the author's first commit; the inner map is then updated in place, which the model
  writes as storing the updated inner map under the author's key.
\<close>

definition ensureAuthor ::
  "(string \<times> (string \<times> nat) list) list \<Rightarrow> string \<Rightarrow> (string \<times> (string \<times> nat) list) list" where
  "ensureAuthor m a = (if \<not> map_has m a then map_set m a [] else m)"

definition addCommit :: "int \<Rightarrow> aggregatedData \<Rightarrow> commit \<Rightarrow> error + aggregatedData" where
  "addCommit tz acc c =
     (let day = formatDay tz (date c);
          week = formatWeek tz (date c);
          month = formatMonth tz (date c);
          uD = ensureAuthor (userDaily acc) (author c);
          uW = ensureAuthor (userWeekly acc) (author c);
          uM = ensureAuthor (userMonthly acc) (author c)
      in case (map_get uD (author c), map_get uW (author c), map_get uM (author c)) of
           (Some authorDaily, Some authorWeekly, Some authorMonthly) \<Rightarrow>
             Inr (acc\<lparr>daily := increment (daily acc) day,
                      weekly := increment (weekly acc) week,
                      monthly := increment (monthly acc) month,
                      userDaily := map_set uD (author c) (increment authorDaily day),
                      userWeekly := map_set uW (author c) (increment authorWeekly week),
                      userMonthly := map_set uM (author c) (increment authorMonthly month)\<rparr>)
         | _ \<Rightarrow> Inl (Error (''Failed to initialize user maps for '' @ author c)))"

fun aggregateLoop :: "int \<Rightarrow> commit list \<Rightarrow> aggregatedData \<Rightarrow> error + aggregatedData" where
  "aggregateLoop tz [] acc = Inr acc"
| "aggregateLoop tz (c # cs) acc =
     (case addCommit tz acc c of Inl e \<Rightarrow> Inl e | Inr acc' \<Rightarrow> aggregateLoop tz cs acc')"

definition inRange :: "jsdate \<Rightarrow> jsdate \<Rightarrow> commit \<Rightarrow> bool" where
  "inRange normalizedStart normalizedEnd c =
     (date_ge (date c) normalizedStart \<and> date_le (date c) normalizedEnd)"

definition aggregateCommits ::
  "int \<Rightarrow> commit list \<Rightarrow> jsdate \<Rightarrow> jsdate \<Rightarrow> error + aggregatedData" where
  "aggregateCommits tz commits startDate endDate =
     (let normalizedStart = setHours tz startDate 0 0 0 0;
          normalizedEnd = setHours tz endDate 23 59 59 999;
          empty = \<lparr>daily = [], weekly = [], monthly = [],
                   userDaily = [], userWeekly = [], userMonthly = [],
                   dateRange = \<lparr>rangeStart = normalizedStart, rangeEnd = normalizedEnd\<rparr>\<rparr>;
          filteredCommits = filter (inRange normalizedStart normalizedEnd) commits
      in aggregateLoop tz filteredCommits (initPeriods tz normalizedStart normalizedEnd empty))"

section \<open>The persisted record set (serializer.ts)\<close>

text \<open>
  \<^verbatim>\<open>deserializeData\<close> reads the file, calls \<^verbatim>\<open>JSON.parse\<close> and validates the value
  against \<^verbatim>\<open>SerializedDataSchema\<close>. The model starts from the parsed JSON value; a
  number is its finite numeric value, an object the list of its properties.
\<close>

datatype json =
    JNull
  | JBool bool
  | JNum rat
  | JStr string
  | JArr "json list"
  | JObj "(string \<times> json) list"

record serializedData =
  commits :: "commit list"
  fileDateRange :: date_range

text \<open>
  The element schema \<^verbatim>\<open>z.object({revision: z.number(), author: z.string(),
  date: z.string(), message: z.string()})\<close>: each field is checked for its primitive type
  only, and properties the schema does not name are dropped.
\<close>

fun commitSchema :: "json \<Rightarrow> (rat \<times> string \<times> string \<times> string) option" where
  "commitSchema (JObj kv) =
     (case (map_of kv ''revision'', map_of kv ''author'', map_of kv ''date'', map_of kv ''message'') of
        (Some (JNum r), Some (JStr a), Some (JStr d), Some (JStr m)) \<Rightarrow> Some (r, a, d, m)
      | _ \<Rightarrow> None)"
| "commitSchema _ = None"

text \<open>\<^verbatim>\<open>z.array(...)\<close>: every element has to pass.\<close>

fun arraySchema :: "json list \<Rightarrow> (rat \<times> string \<times> string \<times> string) list option" where
  "arraySchema [] = Some []"
| "arraySchema (j # js) =
     (case commitSchema j of
        None \<Rightarrow> None
      | Some c \<Rightarrow> (case arraySchema js of None \<Rightarrow> None | Some cs \<Rightarrow> Some (c # cs)))"

fun SerializedDataSchema ::
  "json \<Rightarrow> ((rat \<times> string \<times> string \<times> string) list \<times> string \<times> string) option" where
  "SerializedDataSchema (JObj kv) =
     (case (map_of kv ''commits'', map_of kv ''dateRange'') of
        (Some (JArr cs), Some (JObj dr)) \<Rightarrow>
          (case (arraySchema cs, map_of dr ''start'', map_of dr ''end'') of
             (Some cs', Some (JStr s), Some (JStr e)) \<Rightarrow> Some (cs', s, e)
           | _ \<Rightarrow> None)
      | _ \<Rightarrow> None)"
| "SerializedDataSchema _ = None"

text \<open>
  \<open>newDateString\<close> stands for \<^verbatim>\<open>new Date(s)\<close> on a string, the date parser of the
  JavaScript engine: a parameter of the model. It yields \<open>None\<close>, the invalid date, on a
  string it cannot read.
\<close>

definition toCommit :: "(string \<Rightarrow> jsdate) \<Rightarrow> rat \<times> string \<times> string \<times> string \<Rightarrow> commit" where
  "toCommit newDateString c =
     (case c of (r, a, d, m) \<Rightarrow>
        \<lparr>revision = r, author = a, date = newDateString d, message = m\<rparr>)"

definition deserializeData :: "(string \<Rightarrow> jsdate) \<Rightarrow> json \<Rightarrow> error + serializedData" where
  "deserializeData newDateString parsed =
     (case SerializedDataSchema parsed of
        None \<Rightarrow> Inl (Error ''Invalid data file format'')
      | Some (cs, s, e) \<Rightarrow>
          Inr \<lparr>commits = map (toCommit newDateString) cs,
               fileDateRange = \<lparr>rangeStart = newDateString s, rangeEnd = newDateString e\<rparr>\<rparr>)"

section \<open>The incremental gather (gather.ts, executeGather)\<close>

text \<open>
  What \<^verbatim>\<open>executeGather\<close> decides before it calls \<^verbatim>\<open>exportSvnLog\<close>: with no data file the
  date range stays \<^verbatim>\<open>null\<close> and all history is fetched; with a data file the window starts
  one second after the stored end, and the function returns at once when that start is
  not before \<open>now\<close>. \<^verbatim>\<open>new Date()\<close> is the valid instant \<open>now\<close>. The log line that
  follows calls \<^verbatim>\<open>toISOString\<close> on the start, which throws a \<^verbatim>\<open>RangeError\<close> on an
  invalid date.
\<close>

datatype fetch_plan = NothingToFetch | Fetch "date_range option"

definition planFetch :: "serializedData option \<Rightarrow> int \<Rightarrow> error + fetch_plan" where
  "planFetch existingData now =
     (case existingData of
        None \<Rightarrow> Inr (Fetch None)
      | Some dat \<Rightarrow>
          (let lastCommitDate = rangeEnd (fileDateRange dat);
               incrementalStart = num_add (getTime lastCommitDate) (Some 1000)
           in if date_ge incrementalStart (Some now) then Inr NothingToFetch
              else if incrementalStart = None then Inl RangeError
              else Inr (Fetch (Some \<lparr>rangeStart = incrementalStart, rangeEnd = Some now\<rparr>))))"

text \<open>The merge: new commits whose revision is already stored are dropped.\<close>

definition uniqueNewCommits :: "commit list \<Rightarrow> commit list \<Rightarrow> commit list" where
  "uniqueNewCommits existingCommits newCommits =
     (let existingRevisions = set (map revision existingCommits)
      in filter (\<lambda>c. revision c \<notin> existingRevisions) newCommits)"

definition allCommits :: "bool \<Rightarrow> commit list \<Rightarrow> commit list \<Rightarrow> commit list" where
  "allCommits isIncremental existingCommits newCommits =
     (if isIncremental then existingCommits @ uniqueNewCommits existingCommits newCommits
      else newCommits)"

text \<open>
  \<^verbatim>\<open>new Date(Math.min(...ts))\<close> and \<^verbatim>\<open>new Date(Math.max(...ts))\<close>. The spread passes every
  element of the array as one argument of a single call. An engine accepts only so many
  arguments in a call and throws a \<^verbatim>\<open>RangeError\<close> beyond that number, which depends on
  the engine and on its stack size: it is the parameter \<open>maxArgs\<close>. When the call is made,
  a \<^verbatim>\<open>NaN\<close> among the arguments gives \<^verbatim>\<open>NaN\<close>, and with no argument \<^verbatim>\<open>Math.min\<close> is
  \<^verbatim>\<open>Infinity\<close> and \<^verbatim>\<open>Math.max\<close> is \<^verbatim>\<open>-Infinity\<close>, of which \<^verbatim>\<open>new Date\<close> makes an
  invalid date: \<open>minDate\<close> and \<open>maxDate\<close> are the dates made of the results.
\<close>

definition num_min :: "num \<Rightarrow> num \<Rightarrow> num" where
  "num_min a b = (case (a, b) of (Some x, Some y) \<Rightarrow> Some (min x y) | _ \<Rightarrow> None)"

definition num_max :: "num \<Rightarrow> num \<Rightarrow> num" where
  "num_max a b = (case (a, b) of (Some x, Some y) \<Rightarrow> Some (max x y) | _ \<Rightarrow> None)"

fun minDate :: "num list \<Rightarrow> jsdate" where
  "minDate [] = None"
| "minDate [t] = t"
| "minDate (t # ts) = num_min t (minDate ts)"

fun maxDate :: "num list \<Rightarrow> jsdate" where
  "maxDate [] = None"
| "maxDate [t] = t"
| "maxDate (t # ts) = num_max t (maxDate ts)"

definition newDateMin :: "nat \<Rightarrow> num list \<Rightarrow> error + jsdate" where
  "newDateMin maxArgs ts = (if maxArgs < length ts then Inl RangeError else Inr (minDate ts))"

definition newDateMax :: "nat \<Rightarrow> num list \<Rightarrow> error + jsdate" where
  "newDateMax maxArgs ts = (if maxArgs < length ts then Inl RangeError else Inr (maxDate ts))"

text \<open>
  \<^verbatim>\<open>commitDates\<close> and the object literal \<^verbatim>\<open>actualDateRange\<close>: \<^verbatim>\<open>start\<close> is evaluated
  first, then \<^verbatim>\<open>end\<close>.
\<close>

definition actualDateRange :: "nat \<Rightarrow> commit list \<Rightarrow> error + date_range" where
  "actualDateRange maxArgs cs =
     (case newDateMin maxArgs (map (\<lambda>c. getTime (date c)) cs) of
        Inl e \<Rightarrow> Inl e
      | Inr s \<Rightarrow>
          (case newDateMax maxArgs (map (\<lambda>c. getTime (date c)) cs) of
             Inl e \<Rightarrow> Inl e
           | Inr e \<Rightarrow> Inr \<lparr>rangeStart = s, rangeEnd = e\<rparr>))"

text \<open>
  \<^verbatim>\<open>serializeData\<close> calls \<^verbatim>\<open>toISOString\<close> on every commit date and on both ends of the
  range; an invalid date makes it throw. What is written is the value of \<open>Saved\<close>.
\<close>

datatype gather_outcome =
    UpToDate
  | NoNewCommits
  | NoCommits
  | Saved "commit list" date_range

definition serializeData :: "commit list \<Rightarrow> date_range \<Rightarrow> error + gather_outcome" where
  "serializeData cs dr =
     (if list_ex (\<lambda>c. date c = None) cs \<or> rangeStart dr = None \<or> rangeEnd dr = None
      then Inl RangeError
      else Inr (Saved cs dr))"

text \<open>The part of \<^verbatim>\<open>executeGather\<close> that follows \<^verbatim>\<open>parseCommits\<close>.\<close>

definition storeCommits ::
  "nat \<Rightarrow> bool \<Rightarrow> commit list \<Rightarrow> commit list \<Rightarrow> error + gather_outcome" where
  "storeCommits maxArgs isIncremental existingCommits newCommits =
     (if length newCommits = 0
      then (if isIncremental then Inr NoNewCommits else Inr NoCommits)
      else (case actualDateRange maxArgs (allCommits isIncremental existingCommits newCommits) of
              Inl e \<Rightarrow> Inl e
            | Inr dr \<Rightarrow> serializeData (allCommits isIncremental existingCommits newCommits) dr))"

text \<open>
  \<open>dataFile\<close> is the parsed content of the data file, \<open>None\<close> when the file does not
  exist; \<open>fetchLog\<close> stands for \<^verbatim>\<open>exportSvnLog\<close> followed by \<^verbatim>\<open>parseCommits\<close>, which
  either fail or return the commits of the requested window.
\<close>

definition executeGather ::
  "nat \<Rightarrow> (string \<Rightarrow> jsdate) \<Rightarrow> json option \<Rightarrow> int
     \<Rightarrow> (date_range option \<Rightarrow> error + commit list) \<Rightarrow> error + gather_outcome" where
  "executeGather maxArgs newDateString dataFile now fetchLog =
     (case (case dataFile of
              None \<Rightarrow> Inr None
            | Some parsed \<Rightarrow> map_sum id Some (deserializeData newDateString parsed)) of
        Inl e \<Rightarrow> Inl e
      | Inr existingData \<Rightarrow>
          (case planFetch existingData now of
             Inl e \<Rightarrow> Inl e
           | Inr NothingToFetch \<Rightarrow> Inr UpToDate
           | Inr (Fetch window) \<Rightarrow>
               (case fetchLog window of
                  Inl e \<Rightarrow> Inl e
                | Inr newCommits \<Rightarrow>
                    storeCommits maxArgs (existingData \<noteq> None)
                      (case existingData of None \<Rightarrow> [] | Some dat \<Rightarrow> commits dat)
                      newCommits)))"

section \<open>Properties of the merge\<close>

lemma uniqueNewCommits_filter:
  "uniqueNewCommits existing incoming
     = filter (\<lambda>c. revision c \<notin> revision ` set existing) incoming"
  by (simp add: uniqueNewCommits_def)

lemma filter_revision_distinct:
  assumes "distinct (map revision xs)" and "c \<in> set xs"
  shows "filter (\<lambda>x. revision x = revision c) xs = [c]"
  using assms
proof (induction xs)
  case Nil
  then show ?case by simp
next
  case (Cons x xs)
  show ?case
  proof (cases "x = c")
    case True
    have "revision c \<notin> revision ` set xs"
      using Cons.prems(1) True by simp
    then have "\<forall>y\<in>set xs. revision y \<noteq> revision c"
      by (metis imageI)
    then have "filter (\<lambda>y. revision y = revision c) xs = []"
      by (simp add: filter_empty_conv)
    then show ?thesis using True by simp
  next
    case False
    then have "c \<in> set xs" using Cons.prems(2) by simp
    moreover have "revision x \<noteq> revision c"
      using Cons.prems(1) \<open>c \<in> set xs\<close> by auto
    ultimately show ?thesis using Cons by simp
  qed
qed

text \<open>
  C3. For an existing list with pairwise distinct revisions and any incoming list, the
  merged list of the incremental path is the existing list followed by the incoming
  records whose revision does not occur in the existing list, in incoming order; the
  reported number of new commits is the length of that kept part; and for a revision that
  occurs in both lists the merged list holds exactly one record with it, a record of the
  existing list.
\<close>

theorem merge_dedup:
  assumes "distinct (map revision existing)"
  shows "allCommits True existing incoming
           = existing @ filter (\<lambda>c. revision c \<notin> revision ` set existing) incoming
         \<and> length (uniqueNewCommits existing incoming)
           = length (filter (\<lambda>c. revision c \<notin> revision ` set existing) incoming)
         \<and> (\<forall>r. r \<in> revision ` set existing \<and> r \<in> revision ` set incoming \<longrightarrow>
              (\<exists>c. c \<in> set existing
                 \<and> filter (\<lambda>x. revision x = r) (allCommits True existing incoming) = [c]))"
proof (intro conjI allI impI)
  show "allCommits True existing incoming
          = existing @ filter (\<lambda>c. revision c \<notin> revision ` set existing) incoming"
    by (simp add: allCommits_def uniqueNewCommits_filter)
  show "length (uniqueNewCommits existing incoming)
          = length (filter (\<lambda>c. revision c \<notin> revision ` set existing) incoming)"
    by (simp add: uniqueNewCommits_filter)
next
  fix r
  assume "r \<in> revision ` set existing \<and> r \<in> revision ` set incoming"
  then obtain c where c: "c \<in> set existing" "revision c = r" by auto
  have "filter (\<lambda>x. revision x = r) (filter (\<lambda>c. revision c \<notin> revision ` set existing) incoming) = []"
    using c by (auto simp: filter_empty_conv)
  moreover have "filter (\<lambda>x. revision x = r) existing = [c]"
    using filter_revision_distinct[OF assms c(1)] c(2) by simp
  ultimately have "filter (\<lambda>x. revision x = r) (allCommits True existing incoming) = [c]"
    by (simp add: allCommits_def uniqueNewCommits_filter)
  with c(1) show "\<exists>c. c \<in> set existing
      \<and> filter (\<lambda>x. revision x = r) (allCommits True existing incoming) = [c]"
    by blast
qed

theorem merge_dedup_witness:
  "filter (\<lambda>x. revision x = 7)
     (allCommits True
        [\<lparr>revision = 7, author = ''a'', date = Some 1000, message = ''old''\<rparr>,
         \<lparr>revision = 8, author = ''b'', date = Some 2000, message = ''''\<rparr>]
        [\<lparr>revision = 7, author = ''a'', date = Some 1000, message = ''again''\<rparr>,
         \<lparr>revision = 9, author = ''a'', date = Some 3000, message = ''new''\<rparr>])
   = [\<lparr>revision = 7, author = ''a'', date = Some 1000, message = ''old''\<rparr>]
   \<and> allCommits True
        [\<lparr>revision = 7, author = ''a'', date = Some 1000, message = ''old''\<rparr>,
         \<lparr>revision = 8, author = ''b'', date = Some 2000, message = ''''\<rparr>]
        [\<lparr>revision = 7, author = ''a'', date = Some 1000, message = ''again''\<rparr>,
         \<lparr>revision = 9, author = ''a'', date = Some 3000, message = ''new''\<rparr>]
   = [\<lparr>revision = 7, author = ''a'', date = Some 1000, message = ''old''\<rparr>,
      \<lparr>revision = 8, author = ''b'', date = Some 2000, message = ''''\<rparr>,
      \<lparr>revision = 9, author = ''a'', date = Some 3000, message = ''new''\<rparr>]"
  using merge_dedup[of
      "[\<lparr>revision = 7, author = ''a'', date = Some 1000, message = ''old''\<rparr>,
        \<lparr>revision = 8, author = ''b'', date = Some 2000, message = ''''\<rparr>]"
      "[\<lparr>revision = 7, author = ''a'', date = Some 1000, message = ''again''\<rparr>,
        \<lparr>revision = 9, author = ''a'', date = Some 3000, message = ''new''\<rparr>]"]
  by simp

text \<open>
  C9. Merging the same incoming list a second time adds nothing: after a merge of \<open>A\<close>
  with \<open>B\<close>, no record of \<open>B\<close> is new with respect to the merged list.
\<close>

theorem merge_idempotent:
  "length (uniqueNewCommits (allCommits True A B) B) = 0"
proof -
  have "revision c \<in> revision ` set (allCommits True A B)" if "c \<in> set B" for c
  proof (cases "revision c \<in> revision ` set A")
    case True
    then show ?thesis by (auto simp: allCommits_def)
  next
    case False
    with that have "c \<in> set (uniqueNewCommits A B)"
      by (simp add: uniqueNewCommits_filter)
    then show ?thesis by (auto simp: allCommits_def)
  qed
  then show ?thesis
    by (simp add: uniqueNewCommits_filter filter_empty_conv)
qed

text \<open>
  C4, as the code has it. Records of the incoming list are compared with the existing list
  only, never with each other: every incoming record whose revision is not stored is
  kept, so a revision that occurs twice in the incoming list and not in the existing list
  occurs twice in the merged list.
\<close>

theorem merge_keeps_incoming_duplicates:
  assumes "r \<notin> revision ` set existing"
  shows "filter (\<lambda>x. revision x = r) (allCommits True existing incoming)
           = filter (\<lambda>x. revision x = r) incoming"
proof -
  have "filter (\<lambda>x. revision x = r) existing = []"
    using assms by (auto simp: filter_empty_conv)
  moreover have "filter (\<lambda>x. revision x = r) (uniqueNewCommits existing incoming)
      = filter (\<lambda>x. revision x = r) incoming"
    using assms by (auto simp: uniqueNewCommits_filter intro: filter_cong)
  ultimately show ?thesis by (simp add: allCommits_def)
qed

theorem merge_keeps_incoming_duplicates_witness:
  "filter (\<lambda>x. revision x = 5)
     (allCommits True
        [\<lparr>revision = 4, author = ''a'', date = Some 1000, message = ''''\<rparr>]
        [\<lparr>revision = 5, author = ''a'', date = Some 2000, message = ''first''\<rparr>,
         \<lparr>revision = 5, author = ''b'', date = Some 3000, message = ''second''\<rparr>])
   = [\<lparr>revision = 5, author = ''a'', date = Some 2000, message = ''first''\<rparr>,
      \<lparr>revision = 5, author = ''b'', date = Some 3000, message = ''second''\<rparr>]"
  using merge_keeps_incoming_duplicates[of 5
      "[\<lparr>revision = 4, author = ''a'', date = Some 1000, message = ''''\<rparr>]"
      "[\<lparr>revision = 5, author = ''a'', date = Some 2000, message = ''first''\<rparr>,
        \<lparr>revision = 5, author = ''b'', date = Some 3000, message = ''second''\<rparr>]"]
  by simp

theorem merge_first_wins_counterexample:
  "length (filter (\<lambda>x. revision x = 5)
     (allCommits True []
        [\<lparr>revision = 5, author = ''a'', date = Some 2000, message = ''first''\<rparr>,
         \<lparr>revision = 5, author = ''b'', date = Some 3000, message = ''second''\<rparr>])) = 2"
  by (simp add: allCommits_def uniqueNewCommits_def)

section \<open>Properties of the fetch window and of the stored span\<close>

lemma executeGather_skips_fetch:
  assumes "deserializeData newDateString parsed = Inr dat"
    and "planFetch (Some dat) now = Inr NothingToFetch"
  shows "executeGather maxArgs newDateString (Some parsed) now fetchLog = Inr UpToDate"
  using assms by (simp add: executeGather_def)

lemma executeGather_fetches_all:
  "executeGather maxArgs newDateString None now fetchLog
     = (case fetchLog None of
          Inl e \<Rightarrow> Inl e
        | Inr newCommits \<Rightarrow> storeCommits maxArgs False [] newCommits)"
  by (simp add: executeGather_def planFetch_def split: sum.splits)

text \<open>
  C7. With a data file whose stored span ends at the valid instant \<open>e\<close>, the window is
  \<open>e\<close> plus one second to \<open>now\<close> when that start is before \<open>now\<close>, and otherwise there
  is nothing to fetch, an outcome other than the fetch without a date filter that the
  absence of a data file gives. From 2024-01-01T00:00:00Z (1704067200000 ms) and five
  seconds later the window starts at 2024-01-01T00:00:01Z; with \<open>now\<close> equal to the stored
  end there is nothing to fetch.
\<close>

theorem planFetch_window:
  "planFetch (Some \<lparr>commits = cs, fileDateRange = \<lparr>rangeStart = s, rangeEnd = Some e\<rparr>\<rparr>) now
     = Inr (if e + 1000 < now
            then Fetch (Some \<lparr>rangeStart = Some (e + 1000), rangeEnd = Some now\<rparr>)
            else NothingToFetch)
   \<and> planFetch None now = Inr (Fetch None)
   \<and> NothingToFetch \<noteq> Fetch None
   \<and> planFetch (Some \<lparr>commits = cs,
          fileDateRange = \<lparr>rangeStart = s, rangeEnd = Some 1704067200000\<rparr>\<rparr>) 1704067205000
     = Inr (Fetch (Some \<lparr>rangeStart = Some 1704067201000, rangeEnd = Some 1704067205000\<rparr>))
   \<and> planFetch (Some \<lparr>commits = cs, fileDateRange = \<lparr>rangeStart = s, rangeEnd = Some e\<rparr>\<rparr>) e
     = Inr NothingToFetch"
  by (simp add: planFetch_def getTime_def num_add_def date_ge_def)

text \<open>The minimum and the maximum of valid time values.\<close>

lemma minDate_valid: "ts \<noteq> [] \<Longrightarrow> minDate (map Some ts) = Some (Min (set ts))"
proof (induction ts)
  case Nil
  then show ?case by simp
next
  case (Cons t ts)
  show ?case
  proof (cases ts)
    case Nil
    then show ?thesis by simp
  next
    case (Cons u us)
    then have "minDate (map Some ts) = Some (Min (set ts))"
      using Cons.IH by simp
    then show ?thesis using Cons by (simp add: num_min_def)
  qed
qed

lemma maxDate_valid: "ts \<noteq> [] \<Longrightarrow> maxDate (map Some ts) = Some (Max (set ts))"
proof (induction ts)
  case Nil
  then show ?case by simp
next
  case (Cons t ts)
  show ?case
  proof (cases ts)
    case Nil
    then show ?thesis by simp
  next
    case (Cons u us)
    then have "maxDate (map Some ts) = Some (Max (set ts))"
      using Cons.IH by simp
    then show ?thesis using Cons by (simp add: num_max_def)
  qed
qed

text \<open>
  With more commits than one call takes arguments, the spread throws before anything is
  written.
\<close>

lemma actualDateRange_too_many:
  "maxArgs < length cs \<Longrightarrow> actualDateRange maxArgs cs = Inl RangeError"
  by (simp add: actualDateRange_def newDateMin_def)

lemma storeCommits_too_many:
  assumes "newCommits \<noteq> []"
    and "maxArgs < length (allCommits isIncremental existingCommits newCommits)"
  shows "storeCommits maxArgs isIncremental existingCommits newCommits = Inl RangeError"
  using assms by (simp add: storeCommits_def actualDateRange_too_many)

text \<open>
  C8, as the code has it. For a non-empty commit list with valid dates that has no more
  commits than one call takes arguments, the stored span runs from the least to the
  greatest time value. For no commits nothing fails: the function returns before the
  span is computed and stores nothing, and the span expression alone would give two
  invalid dates.
\<close>

theorem actualDateRange_span:
  assumes "map date cs = map Some ts" and "ts \<noteq> []" and "length cs \<le> maxArgs"
  shows "actualDateRange maxArgs cs
           = Inr \<lparr>rangeStart = Some (Min (set ts)), rangeEnd = Some (Max (set ts))\<rparr>
         \<and> storeCommits maxArgs isIncremental existing []
             = Inr (if isIncremental then NoNewCommits else NoCommits)
         \<and> actualDateRange maxArgs [] = Inr \<lparr>rangeStart = None, rangeEnd = None\<rparr>"
proof -
  have "map (\<lambda>c. getTime (date c)) cs = map Some ts"
    using assms(1) by (simp add: getTime_def)
  moreover have "\<not> maxArgs < length ts"
    using assms(3) map_eq_imp_length_eq[OF assms(1)] by simp
  ultimately show ?thesis
    using assms(2)
    by (simp add: actualDateRange_def newDateMin_def newDateMax_def minDate_valid maxDate_valid
        storeCommits_def)
qed

theorem actualDateRange_span_witness:
  "actualDateRange 100000
     [\<lparr>revision = 1, author = ''a'', date = Some 1709287200000, message = ''''\<rparr>,
      \<lparr>revision = 2, author = ''b'', date = Some 1709305200000, message = ''''\<rparr>,
      \<lparr>revision = 3, author = ''a'', date = Some 1709370000000, message = ''''\<rparr>]
   = Inr \<lparr>rangeStart = Some 1709287200000, rangeEnd = Some 1709370000000\<rparr>"
  using actualDateRange_span[of
      "[\<lparr>revision = 1, author = ''a'', date = Some 1709287200000, message = ''''\<rparr>,
        \<lparr>revision = 2, author = ''b'', date = Some 1709305200000, message = ''''\<rparr>,
        \<lparr>revision = 3, author = ''a'', date = Some 1709370000000, message = ''''\<rparr>]"
      "[1709287200000, 1709305200000, 1709370000000]" 100000]
  by simp

theorem empty_span_counterexample:
  "storeCommits 100000 False [] [] = Inr NoCommits
   \<and> storeCommits 100000 True [] [] = Inr NoNewCommits
   \<and> actualDateRange 100000 [] = Inr \<lparr>rangeStart = None, rangeEnd = None\<rparr>"
  by (simp add: storeCommits_def actualDateRange_def newDateMin_def newDateMax_def)

section \<open>Properties of the deserialisation\<close>

lemma arraySchema_typed:
  assumes "list_all2 (\<lambda>j c. case c of (r, a, d, m) \<Rightarrow>
             (\<exists>kv. j = JObj kv \<and> map_of kv ''revision'' = Some (JNum r)
                \<and> map_of kv ''author'' = Some (JStr a) \<and> map_of kv ''date'' = Some (JStr d)
                \<and> map_of kv ''message'' = Some (JStr m))) js cs"
  shows "arraySchema js = Some cs"
  using assms by (induction js cs rule: list_all2_induct) auto

text \<open>
  C10. A stored file whose commits carry a number as revision and strings as author,
  date and message, and whose date range carries two strings, is accepted whatever the
  values are, and the records come back field by field, the date as the date the engine
  makes of the string. The witness stores the revisions 0 and -3 and a date string the
  engine cannot read: the file is accepted and the second record has an invalid date.
\<close>

theorem deserializeData_checks_types_only:
  assumes "list_all2 (\<lambda>j c. case c of (r, a, d, m) \<Rightarrow>
             (\<exists>kv. j = JObj kv \<and> map_of kv ''revision'' = Some (JNum r)
                \<and> map_of kv ''author'' = Some (JStr a) \<and> map_of kv ''date'' = Some (JStr d)
                \<and> map_of kv ''message'' = Some (JStr m))) js cs"
    and "map_of file ''commits'' = Some (JArr js)"
    and "map_of file ''dateRange'' = Some (JObj dr)"
    and "map_of dr ''start'' = Some (JStr s)"
    and "map_of dr ''end'' = Some (JStr e)"
  shows "deserializeData newDateString (JObj file)
           = Inr \<lparr>commits = map (\<lambda>(r, a, d, m).
                       \<lparr>revision = r, author = a, date = newDateString d, message = m\<rparr>) cs,
                  fileDateRange = \<lparr>rangeStart = newDateString s, rangeEnd = newDateString e\<rparr>\<rparr>"
proof -
  have "toCommit newDateString = (\<lambda>(r, a, d, m).
          \<lparr>revision = r, author = a, date = newDateString d, message = m\<rparr>)"
    by (rule ext) (simp add: toCommit_def)
  then show ?thesis
    using assms(2-5) arraySchema_typed[OF assms(1)] by (simp add: deserializeData_def)
qed

theorem deserializeData_checks_types_only_witness:
  "deserializeData (\<lambda>s. if s = ''2024-03-01T10:00:00.000Z'' then Some 1709287200000 else None)
     (JObj [(''commits'', JArr
               [JObj [(''revision'', JNum 0), (''author'', JStr ''a''),
                      (''date'', JStr ''2024-03-01T10:00:00.000Z''), (''message'', JStr '''')],
                JObj [(''revision'', JNum (- 3)), (''author'', JStr ''''),
                      (''date'', JStr ''yesterday''), (''message'', JStr ''m'')]]),
            (''dateRange'', JObj [(''start'', JStr ''2024-03-01T10:00:00.000Z''),
                                  (''end'', JStr ''never'')])])
   = Inr \<lparr>commits =
            [\<lparr>revision = 0, author = ''a'', date = Some 1709287200000, message = ''''\<rparr>,
             \<lparr>revision = - 3, author = '''', date = None, message = ''m''\<rparr>],
          fileDateRange = \<lparr>rangeStart = Some 1709287200000, rangeEnd = None\<rparr>\<rparr>"
  using deserializeData_checks_types_only[of
      "[JObj [(''revision'', JNum 0), (''author'', JStr ''a''),
              (''date'', JStr ''2024-03-01T10:00:00.000Z''), (''message'', JStr '''')],
        JObj [(''revision'', JNum (- 3)), (''author'', JStr ''''),
              (''date'', JStr ''yesterday''), (''message'', JStr ''m'')]]"
      "[(0, ''a'', ''2024-03-01T10:00:00.000Z'', ''''), (- 3, '''', ''yesterday'', ''m'')]"
      "[(''commits'', JArr
               [JObj [(''revision'', JNum 0), (''author'', JStr ''a''),
                      (''date'', JStr ''2024-03-01T10:00:00.000Z''), (''message'', JStr '''')],
                JObj [(''revision'', JNum (- 3)), (''author'', JStr ''''),
                      (''date'', JStr ''yesterday''), (''message'', JStr ''m'')]]),
        (''dateRange'', JObj [(''start'', JStr ''2024-03-01T10:00:00.000Z''),
                              (''end'', JStr ''never'')])]"
      "[(''start'', JStr ''2024-03-01T10:00:00.000Z''), (''end'', JStr ''never'')]"
      "''2024-03-01T10:00:00.000Z''" "''never''"
      "\<lambda>s. if s = ''2024-03-01T10:00:00.000Z'' then Some 1709287200000 else None"]
  by simp

section \<open>Properties of the period formatter\<close>

subsection \<open>Valid dates: the fields depend on the local day only\<close>

lemma Day_of_day_start: "Day (d * msPerDay) = d"
  by (simp add: Day_def msPerDay_def)

lemma LocalTime_UTC: "LocalTime tz (x - tz) = x"
  by (simp add: LocalTime_def)

lemma YearFromTime_day: "YearFromTime (d * msPerDay) = YearFromDay d"
  by (simp add: YearFromTime_def Day_of_day_start)

lemma year_same_day: "Day t = Day t' \<Longrightarrow> YearFromTime t = YearFromTime t'"
  by (simp add: YearFromTime_def)

lemma month_same_day: "Day t = Day t' \<Longrightarrow> MonthFromTime t = MonthFromTime t'"
  by (simp add: MonthFromTime_def DayWithinYear_def InLeapYear_def YearFromTime_def)

lemma date_same_day: "Day t = Day t' \<Longrightarrow> DateFromTime t = DateFromTime t'"
  by (simp add: DateFromTime_def MonthFromTime_def DayWithinYear_def InLeapYear_def
      YearFromTime_def)

lemma setHours_valid:
  "setHours tz (Some t) h m s ms
     = Some (Day (LocalTime tz t) * msPerDay + MakeTime h m s ms - tz)"
  by (simp add: setHours_def UTC_def MakeDate_def)

lemma setHours_midnight:
  "setHours tz (Some t) 0 0 0 0 = Some (Day (LocalTime tz t) * msPerDay - tz)"
  by (simp add: setHours_valid MakeTime_def)

lemma setDate_date_plus:
  "setDate tz (Some t) (Some (DateFromTime (LocalTime tz t) + k)) = Some (t + k * msPerDay)"
  using setDate_getDate[of tz t k] by (simp add: getDate_def num_add_def)

lemma formatDay_same_day:
  assumes "Day (LocalTime tz t) = Day (LocalTime tz t')"
  shows "formatDay tz (Some t) = formatDay tz (Some t')"
  using year_same_day[OF assms] month_same_day[OF assms] date_same_day[OF assms]
  by (simp add: formatDay_def getFullYear_def getMonth_def getDate_def)

lemma formatMonth_same_day:
  assumes "Day (LocalTime tz t) = Day (LocalTime tz t')"
  shows "formatMonth tz (Some t) = formatMonth tz (Some t')"
  using year_same_day[OF assms] month_same_day[OF assms]
  by (simp add: formatMonth_def getFullYear_def getMonth_def)

lemma getIsoWeek_same_day:
  assumes "Day (LocalTime tz t) = Day (LocalTime tz t')"
  shows "getIsoWeek tz (Some t) = getIsoWeek tz (Some t')"
proof -
  have "setHours tz (Some t) 0 0 0 0 = setHours tz (Some t') 0 0 0 0"
    using assms by (simp add: setHours_midnight)
  then show ?thesis by (simp only: getIsoWeek_def)
qed

lemma formatWeek_same_day:
  assumes "Day (LocalTime tz t) = Day (LocalTime tz t')"
  shows "formatWeek tz (Some t) = formatWeek tz (Some t')"
  using getIsoWeek_same_day[OF assms] by (simp only: formatWeek_def)

subsection \<open>The ISO week of a valid date\<close>

text \<open>
  The ISO weekday of a day number, Monday 1 to Sunday 7, and the Thursday of the week from
  Monday to Sunday that holds the day.
\<close>

definition isoWeekday :: "int \<Rightarrow> int" where
  "isoWeekday d = (if (d + 4) mod 7 = 0 then 7 else (d + 4) mod 7)"

definition thursdayOfWeek :: "int \<Rightarrow> int" where
  "thursdayOfWeek d = d + 4 - isoWeekday d"

lemma isoWeekday_cases:
  obtains q where "d + 4 = 7 * q" "isoWeekday d = 7"
  | q r where "d + 4 = 7 * q + r" "1 \<le> r" "r \<le> 6" "isoWeekday d = r"
proof (cases "(d + 4) mod 7 = 0")
  case True
  then have "d + 4 = 7 * ((d + 4) div 7)" by (simp add: mod_eq_0_iff_dvd)
  moreover have "isoWeekday d = 7" using True by (simp add: isoWeekday_def)
  ultimately show ?thesis using that(1) by blast
next
  case False
  have "d + 4 = 7 * ((d + 4) div 7) + (d + 4) mod 7" by simp
  moreover have "0 \<le> (d + 4) mod 7" "(d + 4) mod 7 < 7" by simp_all
  then have "1 \<le> (d + 4) mod 7" "(d + 4) mod 7 \<le> 6" using False by linarith+
  moreover have "isoWeekday d = (d + 4) mod 7" using False by (simp add: isoWeekday_def)
  ultimately show ?thesis using that(2) by blast
qed

lemma isoWeekday_range: "1 \<le> isoWeekday d \<and> isoWeekday d \<le> 7"
  by (cases d rule: isoWeekday_cases) simp_all

lemma thursdayOfWeek_is_thursday: "WeekDay (thursdayOfWeek d * msPerDay) = 4"
proof -
  have "(d + 4 - isoWeekday d + 4) mod 7 = 4"
  proof (cases d rule: isoWeekday_cases)
    case (1 q)
    then have "d + 4 - isoWeekday d + 4 = 4 + (q - 1) * 7" by simp
    then show ?thesis by (simp only: mod_mult_self1) simp
  next
    case (2 q r)
    then have "d + 4 - isoWeekday d + 4 = 4 + q * 7" by simp
    then show ?thesis by (simp only: mod_mult_self1) simp
  qed
  then show ?thesis by (simp add: WeekDay_def Day_of_day_start thursdayOfWeek_def)
qed

lemma thursdayOfWeek_same_week:
  "thursdayOfWeek d - 3 \<le> d \<and> d \<le> thursdayOfWeek d + 3
   \<and> isoWeekday (thursdayOfWeek d - 3) = 1"
proof -
  have "(d + 4 - isoWeekday d - 3 + 4) mod 7 = 1"
  proof (cases d rule: isoWeekday_cases)
    case (1 q)
    then have "d + 4 - isoWeekday d - 3 + 4 = 1 + (q - 1) * 7" by simp
    then show ?thesis by (simp only: mod_mult_self1) simp
  next
    case (2 q r)
    then have "d + 4 - isoWeekday d - 3 + 4 = 1 + q * 7" by simp
    then show ?thesis by (simp only: mod_mult_self1) simp
  qed
  then have "isoWeekday (thursdayOfWeek d - 3) = 1"
    by (simp add: isoWeekday_def thursdayOfWeek_def)
  then show ?thesis using isoWeekday_range[of d] by (simp add: thursdayOfWeek_def)
qed

lemma weekNo_ceiling:
  "\<lceil>((of_int (n * 86400000) :: rat) / 86400000 + 1) / 7\<rceil> = - ((- (n + 1)) div 7)"
proof -
  have "((of_int (n * 86400000) :: rat) / 86400000 + 1) / 7 = of_int (n + 1) / of_int 7"
    by simp
  then show ?thesis by (simp only: ceiling_divide_eq_div)
qed

lemma getIsoWeek_valid:
  "getIsoWeek tz (Some t) =
     (Some (YearFromDay (thursdayOfWeek (Day (LocalTime tz t)))),
      Some (- ((- (thursdayOfWeek (Day (LocalTime tz t))
                   - MakeDay (if 0 \<le> YearFromDay (thursdayOfWeek (Day (LocalTime tz t)))
                                 \<and> YearFromDay (thursdayOfWeek (Day (LocalTime tz t))) \<le> 99
                              then 1900 + YearFromDay (thursdayOfWeek (Day (LocalTime tz t)))
                              else YearFromDay (thursdayOfWeek (Day (LocalTime tz t)))) 0 1
                   + 1)) div 7)))"
proof -
  define D where "D = Day (LocalTime tz t)"
  define m where "m = D * msPerDay - tz"
  define th where "th = thursdayOfWeek D"
  define y where "y = YearFromDay th"
  define ys where "ys = MakeDay (if 0 \<le> y \<and> y \<le> 99 then 1900 + y else y) 0 1"
  have d1: "setHours tz (Some t) 0 0 0 0 = Some m"
    by (simp add: setHours_midnight m_def D_def)
  have Dm: "Day (LocalTime tz m) = D"
    by (simp add: m_def LocalTime_UTC Day_of_day_start)
  have wd: "num_or (getDay tz (Some m)) 7 = Some (isoWeekday D)"
    by (simp add: num_or_def getDay_def WeekDay_def Dm isoWeekday_def)
  have arg: "num_sub (num_add (getDate tz (Some m)) (Some 4)) (num_or (getDay tz (Some m)) 7)
               = Some (DateFromTime (LocalTime tz m) + (4 - isoWeekday D))"
    unfolding wd by (simp add: getDate_def num_add_def num_sub_def)
  have d2: "setDate tz (Some m)
              (num_sub (num_add (getDate tz (Some m)) (Some 4)) (num_or (getDay tz (Some m)) 7))
            = Some (th * msPerDay - tz)"
    unfolding arg setDate_date_plus
    by (simp add: m_def th_def thursdayOfWeek_def algebra_simps)
  have yr: "getFullYear tz (Some (th * msPerDay - tz)) = Some y"
    by (simp add: getFullYear_def LocalTime_UTC YearFromTime_day y_def)
  have start: "newDateYMD tz (Some y) 0 1 = Some (ys * msPerDay - tz)"
    by (simp add: newDateYMD_def ys_def UTC_def MakeDate_def MakeTime_def)
  have diff: "th * msPerDay - tz - (ys * msPerDay - tz) = (th - ys) * 86400000"
    by (simp add: msPerDay_def algebra_simps)
  have "getIsoWeek tz (Some t) = (Some y, Some (- ((- (th - ys + 1)) div 7)))"
    unfolding getIsoWeek_def Let_def d1 d2 yr start getTime_def
    by (simp only: diff weekNo_ceiling option.case prod.case)
  then show ?thesis
    by (simp only: y_def ys_def th_def D_def)
qed

text \<open>
  C5. For every valid timestamp the year in the week label is the year of the Thursday of
  the local week, Monday to Sunday, that holds the timestamp's day (Sunday counting as
  weekday 7): the shifted day is a Thursday, it lies at most three days from the day, and
  three days before it is a Monday. On 1 January 2023, a Sunday, the label is 2022-W52
  although the year of the timestamp is 2023; the instant taken is the local midnight of
  that day, 1672531200000 ms less the zone offset.
\<close>

theorem formatWeek_year_of_thursday:
  "formatWeek tz (Some t)
     = numToString (Some (YearFromDay (thursdayOfWeek (Day (LocalTime tz t))))) @ ''-W''
         @ padStart2 (numToString (snd (getIsoWeek tz (Some t))))
   \<and> fst (getIsoWeek tz (Some t)) = Some (YearFromDay (thursdayOfWeek (Day (LocalTime tz t))))
   \<and> WeekDay (thursdayOfWeek (Day (LocalTime tz t)) * msPerDay) = 4
   \<and> thursdayOfWeek (Day (LocalTime tz t)) - 3 \<le> Day (LocalTime tz t)
   \<and> Day (LocalTime tz t) \<le> thursdayOfWeek (Day (LocalTime tz t)) + 3
   \<and> isoWeekday (thursdayOfWeek (Day (LocalTime tz t)) - 3) = 1
   \<and> formatWeek tz (Some (1672531200000 - tz)) = ''2022-W52''
   \<and> getFullYear tz (Some (1672531200000 - tz)) = Some 2023
   \<and> getDay tz (Some (1672531200000 - tz)) = Some 0"
proof -
  have label: "formatWeek tz (Some t)
      = numToString (Some (YearFromDay (thursdayOfWeek (Day (LocalTime tz t))))) @ ''-W''
          @ padStart2 (numToString (snd (getIsoWeek tz (Some t))))"
    by (simp add: formatWeek_def getIsoWeek_valid)
  have year: "fst (getIsoWeek tz (Some t))
      = Some (YearFromDay (thursdayOfWeek (Day (LocalTime tz t))))"
    by (simp add: getIsoWeek_valid)
  have day: "Day (LocalTime tz (1672531200000 - tz)) = 19358"
    by (simp add: LocalTime_def Day_def msPerDay_def)
  have th: "thursdayOfWeek 19358 = 19355"
    by (simp add: thursdayOfWeek_def isoWeekday_def)
  have y: "YearFromDay 19355 = 2022"
    by (simp add: YearFromDay_def yearIn400_def yearIn100_def)
  have ys: "MakeDay 2022 0 1 = 18993"
    by (simp add: MakeDay_def DayFromYear_def DaysInYear_def monthStart_def)
  have jan1: "formatWeek tz (Some (1672531200000 - tz)) = ''2022-W52''"
    by (simp add: formatWeek_def getIsoWeek_valid day th y ys numToString_def
        natToString.simps digitChar_def padStart2_def)
  have y23: "getFullYear tz (Some (1672531200000 - tz)) = Some 2023"
    using day
    by (simp add: getFullYear_def YearFromTime_def YearFromDay_def yearIn400_def yearIn100_def)
  have sunday: "getDay tz (Some (1672531200000 - tz)) = Some 0"
    using day by (simp add: getDay_def WeekDay_def)
  show ?thesis
    using label year thursdayOfWeek_is_thursday thursdayOfWeek_same_week jan1 y23 sunday
    by blast
qed

section \<open>Properties of the fixed-range aggregation\<close>

subsection \<open>Maps as partial functions\<close>

lemma map_of_map_set: "map_of (map_set m k v) = (map_of m)(k \<mapsto> v)"
  by (induction m) (auto simp: fun_eq_iff)

lemma keys_map_set: "fst ` set (map_set m k v) = insert k (fst ` set m)"
  by (induction m) auto

lemma keys_dom: "fst ` set m = dom (map_of m)"
  by (simp add: dom_map_of_conv_image_fst)

text \<open>The count \<^verbatim>\<open>m.get(k) ?? 0\<close> of a looked-up value.\<close>

definition orZero :: "nat option \<Rightarrow> nat" where
  "orZero v = (case v of None \<Rightarrow> 0 | Some n \<Rightarrow> n)"

lemma map_of_increment:
  "map_of (increment m k) = (map_of m)(k \<mapsto> orZero (map_of m k) + 1)"
  by (simp add: increment_def map_get_def map_of_map_set orZero_def)

lemma fold_increment:
  "map_of (fold (\<lambda>c m. increment m (f c)) cs m) l
     = (if length (filter (\<lambda>c. f c = l) cs) = 0 then map_of m l
        else Some (orZero (map_of m l) + length (filter (\<lambda>c. f c = l) cs)))"
proof (induction cs arbitrary: m)
  case Nil
  then show ?case by simp
next
  case (Cons c cs)
  show ?case
  proof (cases "f c = l")
    case True
    then show ?thesis
      by (simp add: Cons.IH map_of_increment orZero_def)
  next
    case False
    then show ?thesis
      by (simp add: Cons.IH map_of_increment)
  qed
qed

subsection \<open>The maps of one author\<close>

text \<open>The count stored for author \<open>a\<close> under label \<open>l\<close>, if any.\<close>

definition userCount ::
  "(string \<times> (string \<times> nat) list) list \<Rightarrow> string \<Rightarrow> string \<Rightarrow> nat option" where
  "userCount m a l = (case map_of m a of None \<Rightarrow> None | Some im \<Rightarrow> map_of im l)"

text \<open>What one commit of author \<open>a\<close> with label \<open>l\<close> does to a map of maps.\<close>

definition incrementUser ::
  "(string \<times> (string \<times> nat) list) list \<Rightarrow> string \<Rightarrow> string
     \<Rightarrow> (string \<times> (string \<times> nat) list) list" where
  "incrementUser m a l =
     (case map_get (ensureAuthor m a) a of
        None \<Rightarrow> ensureAuthor m a
      | Some im \<Rightarrow> map_set (ensureAuthor m a) a (increment im l))"

lemma map_of_ensureAuthor:
  "map_of (ensureAuthor m a)
     = (case map_of m a of None \<Rightarrow> (map_of m)(a \<mapsto> []) | Some im \<Rightarrow> map_of m)"
  by (simp add: ensureAuthor_def map_has_def map_of_map_set split: option.splits)

lemma keys_ensureAuthor: "fst ` set (ensureAuthor m a) = insert a (fst ` set m)"
proof (cases "map_of m a")
  case None
  then show ?thesis by (simp add: ensureAuthor_def map_has_def keys_map_set)
next
  case (Some im)
  then have "a \<in> dom (map_of m)" by blast
  then have "a \<in> fst ` set m" by (simp add: keys_dom)
  then show ?thesis using Some by (auto simp: ensureAuthor_def map_has_def)
qed

lemma map_of_incrementUser:
  "map_of (incrementUser m a l)
     = (map_of m)(a \<mapsto> increment (case map_of m a of None \<Rightarrow> [] | Some im \<Rightarrow> im) l)"
  by (cases "map_of m a")
     (simp_all add: incrementUser_def map_get_def map_of_ensureAuthor map_of_map_set)

lemma keys_incrementUser: "fst ` set (incrementUser m a l) = insert a (fst ` set m)"
  by (cases "map_of m a")
     (simp_all add: incrementUser_def map_get_def map_of_ensureAuthor keys_map_set
        keys_ensureAuthor)

lemma userCount_incrementUser:
  "userCount (incrementUser m a l) a' l'
     = (if a' = a \<and> l' = l then Some (orZero (userCount m a l) + 1) else userCount m a' l')"
  by (cases "map_of m a")
     (simp_all add: userCount_def map_of_incrementUser map_of_increment orZero_def)

lemma fold_incrementUser:
  "userCount (fold (\<lambda>c m. incrementUser m (g c) (f c)) cs m) a l
     = (if length (filter (\<lambda>c. g c = a \<and> f c = l) cs) = 0 then userCount m a l
        else Some (orZero (userCount m a l) + length (filter (\<lambda>c. g c = a \<and> f c = l) cs)))"
proof (induction cs arbitrary: m)
  case Nil
  then show ?case by simp
next
  case (Cons c cs)
  show ?case
  proof (cases "g c = a \<and> f c = l")
    case True
    then show ?thesis
      by (simp add: Cons.IH userCount_incrementUser orZero_def)
  next
    case False
    then show ?thesis
      by (auto simp: Cons.IH userCount_incrementUser orZero_def)
  qed
qed

lemma keys_fold_incrementUser:
  "fst ` set (fold (\<lambda>c m. incrementUser m (g c) (f c)) cs m) = fst ` set m \<union> g ` set cs"
  by (induction cs arbitrary: m) (auto simp: keys_incrementUser)

subsection \<open>The loop over the filtered commits never fails\<close>

text \<open>The state after one commit, written without the check that cannot fail.\<close>

definition counted :: "int \<Rightarrow> commit \<Rightarrow> aggregatedData \<Rightarrow> aggregatedData" where
  "counted tz c acc =
     acc\<lparr>daily := increment (daily acc) (formatDay tz (date c)),
         weekly := increment (weekly acc) (formatWeek tz (date c)),
         monthly := increment (monthly acc) (formatMonth tz (date c)),
         userDaily := incrementUser (userDaily acc) (author c) (formatDay tz (date c)),
         userWeekly := incrementUser (userWeekly acc) (author c) (formatWeek tz (date c)),
         userMonthly := incrementUser (userMonthly acc) (author c) (formatMonth tz (date c))\<rparr>"

lemma ensureAuthor_has: "\<exists>im. map_get (ensureAuthor m a) a = Some im"
  by (cases "map_of m a") (simp_all add: map_get_def map_of_ensureAuthor)

lemma addCommit_counted: "addCommit tz acc c = Inr (counted tz c acc)"
proof -
  obtain d where d: "map_get (ensureAuthor (userDaily acc) (author c)) (author c) = Some d"
    using ensureAuthor_has by blast
  obtain w where w: "map_get (ensureAuthor (userWeekly acc) (author c)) (author c) = Some w"
    using ensureAuthor_has by blast
  obtain m where m: "map_get (ensureAuthor (userMonthly acc) (author c)) (author c) = Some m"
    using ensureAuthor_has by blast
  show ?thesis
    by (simp add: addCommit_def counted_def incrementUser_def Let_def d w m)
qed

lemma aggregateLoop_fold: "aggregateLoop tz cs acc = Inr (fold (counted tz) cs acc)"
  by (induction cs arbitrary: acc) (simp_all add: addCommit_counted)

lemma fold_counted_daily:
  "daily (fold (counted tz) cs acc)
     = fold (\<lambda>c m. increment m (formatDay tz (date c))) cs (daily acc)"
  by (induction cs arbitrary: acc) (simp_all add: counted_def)

lemma fold_counted_weekly:
  "weekly (fold (counted tz) cs acc)
     = fold (\<lambda>c m. increment m (formatWeek tz (date c))) cs (weekly acc)"
  by (induction cs arbitrary: acc) (simp_all add: counted_def)

lemma fold_counted_monthly:
  "monthly (fold (counted tz) cs acc)
     = fold (\<lambda>c m. increment m (formatMonth tz (date c))) cs (monthly acc)"
  by (induction cs arbitrary: acc) (simp_all add: counted_def)

lemma fold_counted_userDaily:
  "userDaily (fold (counted tz) cs acc)
     = fold (\<lambda>c m. incrementUser m (author c) (formatDay tz (date c))) cs (userDaily acc)"
  by (induction cs arbitrary: acc) (simp_all add: counted_def)

lemma fold_counted_userWeekly:
  "userWeekly (fold (counted tz) cs acc)
     = fold (\<lambda>c m. incrementUser m (author c) (formatWeek tz (date c))) cs (userWeekly acc)"
  by (induction cs arbitrary: acc) (simp_all add: counted_def)

lemma fold_counted_userMonthly:
  "userMonthly (fold (counted tz) cs acc)
     = fold (\<lambda>c m. incrementUser m (author c) (formatMonth tz (date c))) cs (userMonthly acc)"
  by (induction cs arbitrary: acc) (simp_all add: counted_def)

lemma fold_counted_dateRange: "dateRange (fold (counted tz) cs acc) = dateRange acc"
  by (induction cs arbitrary: acc) (simp_all add: counted_def)

subsection \<open>The periods that the initialisation visits\<close>

text \<open>The dates the loop runs through: \<open>current\<close>, a day later, and so on up to the end.\<close>

definition visited :: "jsdate \<Rightarrow> jsdate \<Rightarrow> jsdate set" where
  "visited current normalizedEnd =
     {d. \<exists>c e k. current = Some c \<and> normalizedEnd = Some e \<and> 0 \<le> k
           \<and> d = Some (c + k * msPerDay) \<and> c + k * msPerDay \<le> e}"

lemma visited_none: "\<not> date_le current normalizedEnd \<Longrightarrow> visited current normalizedEnd = {}"
proof -
  assume n: "\<not> date_le current normalizedEnd"
  have False if "current = Some c" "normalizedEnd = Some e" "0 \<le> k" "c + k * msPerDay \<le> e"
    for c e k
  proof -
    have "0 \<le> k * msPerDay" using that(3) by (simp add: msPerDay_def)
    then have "c \<le> e" using that(4) by linarith
    then show False using n that(1,2) by (simp add: date_le_def)
  qed
  then show ?thesis unfolding visited_def by blast
qed

lemma visitedI:
  "0 \<le> k \<Longrightarrow> c + k * msPerDay \<le> e \<Longrightarrow> Some (c + k * msPerDay) \<in> visited (Some c) (Some e)"
  unfolding visited_def by blast

lemma visitedE:
  assumes "d \<in> visited (Some c) (Some e)"
  obtains k where "0 \<le> k" "d = Some (c + k * msPerDay)" "c + k * msPerDay \<le> e"
  using assms unfolding visited_def by auto

lemma visited_step:
  assumes "c \<le> e"
  shows "visited (Some c) (Some e) = insert (Some c) (visited (Some (c + msPerDay)) (Some e))"
proof (intro set_eqI iffI)
  fix d
  assume "d \<in> visited (Some c) (Some e)"
  then obtain k where k: "0 \<le> k" "d = Some (c + k * msPerDay)" "c + k * msPerDay \<le> e"
    by (rule visitedE)
  show "d \<in> insert (Some c) (visited (Some (c + msPerDay)) (Some e))"
  proof (cases "k = 0")
    case True
    then show ?thesis using k by simp
  next
    case False
    then have k1: "0 \<le> k - 1" using k(1) by simp
    have eq: "c + k * msPerDay = c + msPerDay + (k - 1) * msPerDay"
      by (simp add: algebra_simps)
    have "Some (c + msPerDay + (k - 1) * msPerDay) \<in> visited (Some (c + msPerDay)) (Some e)"
      using k1 k(3) unfolding eq by (rule visitedI)
    then show ?thesis using k(2) eq by simp
  qed
next
  fix d
  assume "d \<in> insert (Some c) (visited (Some (c + msPerDay)) (Some e))"
  then consider "d = Some c" | "d \<in> visited (Some (c + msPerDay)) (Some e)" by blast
  then show "d \<in> visited (Some c) (Some e)"
  proof cases
    case 1
    have "Some (c + 0 * msPerDay) \<in> visited (Some c) (Some e)"
      by (rule visitedI) (use assms in simp_all)
    then show ?thesis using 1 by simp
  next
    case 2
    then obtain k where k: "0 \<le> k" "d = Some (c + msPerDay + k * msPerDay)"
        "c + msPerDay + k * msPerDay \<le> e"
      by (rule visitedE)
    have k1: "0 \<le> k + 1" using k(1) by simp
    have eq: "c + msPerDay + k * msPerDay = c + (k + 1) * msPerDay"
      by (simp add: algebra_simps)
    have "Some (c + (k + 1) * msPerDay) \<in> visited (Some c) (Some e)"
      using k1 k(3) unfolding eq by (rule visitedI)
    then show ?thesis using k(2) eq by simp
  qed
qed

lemma initPeriods_stop:
  "\<not> date_le current normalizedEnd \<Longrightarrow> initPeriods tz current normalizedEnd acc = acc"
  by (subst initPeriods.simps) simp

lemma initPeriods_step:
  assumes "c \<le> e"
  shows "initPeriods tz (Some c) (Some e) acc
           = initPeriods tz (Some (c + msPerDay)) (Some e)
               (acc\<lparr>daily := map_set (daily acc) (formatDay tz (Some c)) 0,
                    weekly := map_set (weekly acc) (formatWeek tz (Some c)) 0,
                    monthly := map_set (monthly acc) (formatMonth tz (Some c)) 0\<rparr>)"
proof -
  have "setDate tz (Some c) (num_add (getDate tz (Some c)) (Some 1)) = Some (c + msPerDay)"
    using setDate_getDate[of tz c 1] by simp
  moreover have "date_le (Some c) (Some e)" using assms by (simp add: date_le_def)
  ultimately show ?thesis by (subst initPeriods.simps) simp
qed

lemma initPeriods_cases [case_names stop step]:
  fixes P :: "int \<Rightarrow> jsdate \<Rightarrow> jsdate \<Rightarrow> aggregatedData \<Rightarrow> bool"
  assumes stop: "\<And>tz current normalizedEnd acc. \<not> date_le current normalizedEnd
                   \<Longrightarrow> P tz current normalizedEnd acc"
    and step: "\<And>tz c e acc. c \<le> e
                 \<Longrightarrow> P tz (Some (c + msPerDay)) (Some e)
                       (acc\<lparr>daily := map_set (daily acc) (formatDay tz (Some c)) 0,
                            weekly := map_set (weekly acc) (formatWeek tz (Some c)) 0,
                            monthly := map_set (monthly acc) (formatMonth tz (Some c)) 0\<rparr>)
                 \<Longrightarrow> P tz (Some c) (Some e) acc"
  shows "P tz current normalizedEnd acc"
proof (induction tz current normalizedEnd acc rule: initPeriods.induct)
  case (1 tz current normalizedEnd acc)
  show ?case
  proof (cases "date_le current normalizedEnd")
    case True
    then obtain c e where ce: "current = Some c" "normalizedEnd = Some e" "c \<le> e"
      by (auto simp: date_le_def split: option.splits)
    have nx: "setDate tz (Some c) (num_add (getDate tz (Some c)) (Some 1)) = Some (c + msPerDay)"
      using setDate_getDate[of tz c 1] by simp
    show ?thesis
      unfolding ce using "1.IH"[OF True, unfolded ce nx] ce(3) by (rule step[rotated])
  next
    case False
    then show ?thesis by (rule stop)
  qed
qed

lemma initPeriods_daily:
  "map_of (daily (initPeriods tz current normalizedEnd acc)) l
     = (if l \<in> formatDay tz ` visited current normalizedEnd then Some 0
        else map_of (daily acc) l)"
proof (induction tz current normalizedEnd acc rule: initPeriods_cases)
  case (stop tz current normalizedEnd acc)
  then show ?case by (simp add: initPeriods_stop visited_none)
next
  case (step tz c e acc)
  then show ?case by (simp add: initPeriods_step visited_step map_of_map_set)
qed

lemma initPeriods_weekly:
  "map_of (weekly (initPeriods tz current normalizedEnd acc)) l
     = (if l \<in> formatWeek tz ` visited current normalizedEnd then Some 0
        else map_of (weekly acc) l)"
proof (induction tz current normalizedEnd acc rule: initPeriods_cases)
  case (stop tz current normalizedEnd acc)
  then show ?case by (simp add: initPeriods_stop visited_none)
next
  case (step tz c e acc)
  then show ?case by (simp add: initPeriods_step visited_step map_of_map_set)
qed

lemma initPeriods_monthly:
  "map_of (monthly (initPeriods tz current normalizedEnd acc)) l
     = (if l \<in> formatMonth tz ` visited current normalizedEnd then Some 0
        else map_of (monthly acc) l)"
proof (induction tz current normalizedEnd acc rule: initPeriods_cases)
  case (stop tz current normalizedEnd acc)
  then show ?case by (simp add: initPeriods_stop visited_none)
next
  case (step tz c e acc)
  then show ?case by (simp add: initPeriods_step visited_step map_of_map_set)
qed

lemma initPeriods_users:
  "userDaily (initPeriods tz current normalizedEnd acc) = userDaily acc
   \<and> userWeekly (initPeriods tz current normalizedEnd acc) = userWeekly acc
   \<and> userMonthly (initPeriods tz current normalizedEnd acc) = userMonthly acc
   \<and> dateRange (initPeriods tz current normalizedEnd acc) = dateRange acc"
proof (induction tz current normalizedEnd acc rule: initPeriods_cases)
  case (stop tz current normalizedEnd acc)
  then show ?case by (simp add: initPeriods_stop)
next
  case (step tz c e acc)
  then show ?case by (simp add: initPeriods_step)
qed

subsection \<open>The visited days carry the labels of the whole range\<close>

text \<open>The valid dates from \<open>a\<close> to \<open>b\<close>, both included, as the comparisons of the code read them.\<close>

definition datesBetween :: "jsdate \<Rightarrow> jsdate \<Rightarrow> jsdate set" where
  "datesBetween a b = {d. date_le a d \<and> date_le d b}"

lemma datesBetween_valid: "datesBetween (Some c) (Some e) = Some ` {c..e}"
  unfolding datesBetween_def
  by (auto simp: date_le_def image_iff split: option.splits)

lemma datesBetween_invalid: "a = None \<or> b = None \<Longrightarrow> datesBetween a b = {}"
  unfolding datesBetween_def by (auto simp: date_le_def split: option.splits)

lemma visited_invalid: "a = None \<or> b = None \<Longrightarrow> visited a b = {}"
  unfolding visited_def by auto

lemma Day_shift: "Day (d * msPerDay + x) = d + x div msPerDay"
  by (simp add: Day_def msPerDay_def)

lemma labels_of_visited:
  assumes inv: "\<And>t t'. Day (LocalTime tz t) = Day (LocalTime tz t') \<Longrightarrow> F (Some t) = F (Some t')"
    and aligned: "c = d0 * msPerDay - tz"
  shows "F ` visited (Some c) (Some e) = F ` datesBetween (Some c) (Some e)"
proof (intro set_eqI iffI)
  fix l
  assume "l \<in> F ` visited (Some c) (Some e)"
  then obtain k where k: "0 \<le> k" "l = F (Some (c + k * msPerDay))" "c + k * msPerDay \<le> e"
    unfolding visited_def by auto
  have "0 \<le> k * msPerDay" using k(1) by (simp add: msPerDay_def)
  then have "c + k * msPerDay \<in> {c..e}" using k(3) by simp
  then show "l \<in> F ` datesBetween (Some c) (Some e)"
    unfolding datesBetween_valid using k(2) by blast
next
  fix l
  assume "l \<in> F ` datesBetween (Some c) (Some e)"
  then obtain t where t: "c \<le> t" "t \<le> e" "l = F (Some t)"
    unfolding datesBetween_valid by auto
  define k where "k = (t - c) div msPerDay"
  have k0: "0 \<le> k" unfolding k_def using t(1) by (simp add: msPerDay_def pos_imp_zdiv_nonneg_iff)
  have "k * msPerDay \<le> t - c"
    unfolding k_def msPerDay_def by simp
  then have le: "c + k * msPerDay \<le> e" using t(2) by linarith
  have "LocalTime tz t = d0 * msPerDay + (t - c)"
    by (simp add: LocalTime_def aligned)
  then have "Day (LocalTime tz t) = d0 + k"
    by (simp add: Day_shift k_def)
  moreover have "LocalTime tz (c + k * msPerDay) = (d0 + k) * msPerDay"
    by (simp add: LocalTime_def aligned algebra_simps)
  then have "Day (LocalTime tz (c + k * msPerDay)) = d0 + k"
    by (simp add: Day_of_day_start)
  ultimately have "F (Some t) = F (Some (c + k * msPerDay))"
    by (intro inv) simp
  moreover have "Some (c + k * msPerDay) \<in> visited (Some c) (Some e)"
    unfolding visited_def using k0 le by blast
  ultimately show "l \<in> F ` visited (Some c) (Some e)"
    using t(3) by blast
qed

lemma labels_of_range:
  assumes inv: "\<And>t t'. Day (LocalTime tz t) = Day (LocalTime tz t') \<Longrightarrow> F (Some t) = F (Some t')"
  shows "F ` visited (setHours tz startDate 0 0 0 0) (setHours tz endDate 23 59 59 999)
           = F ` datesBetween (setHours tz startDate 0 0 0 0) (setHours tz endDate 23 59 59 999)"
proof (cases startDate)
  case None
  then show ?thesis by (simp add: setHours_def visited_invalid datesBetween_invalid)
next
  case s: (Some s)
  show ?thesis
  proof (cases endDate)
    case None
    then show ?thesis by (simp add: setHours_def visited_invalid datesBetween_invalid)
  next
    case e: (Some e)
    show ?thesis
      unfolding s e setHours_midnight setHours_valid[of tz e]
      by (rule labels_of_visited[where F = F and tz = tz
            and ?d0.0 = "Day (LocalTime tz s)", OF inv refl])
  qed
qed

subsection \<open>The result of the aggregation\<close>

lemma date_ge_le: "date_ge a b = date_le b a"
  by (simp add: date_ge_def date_le_def split: option.splits)

lemma inRange_datesBetween:
  "inRange normalizedStart normalizedEnd c \<longleftrightarrow> date c \<in> datesBetween normalizedStart normalizedEnd"
  by (simp add: inRange_def datesBetween_def date_ge_le)

text \<open>The filtered commits of a call, and the state the loop over them starts from.\<close>

definition filteredCommits :: "int \<Rightarrow> commit list \<Rightarrow> jsdate \<Rightarrow> jsdate \<Rightarrow> commit list" where
  "filteredCommits tz cs startDate endDate =
     filter (inRange (setHours tz startDate 0 0 0 0) (setHours tz endDate 23 59 59 999)) cs"

definition seeded :: "int \<Rightarrow> jsdate \<Rightarrow> jsdate \<Rightarrow> aggregatedData" where
  "seeded tz startDate endDate =
     initPeriods tz (setHours tz startDate 0 0 0 0) (setHours tz endDate 23 59 59 999)
       \<lparr>daily = [], weekly = [], monthly = [],
        userDaily = [], userWeekly = [], userMonthly = [],
        dateRange = \<lparr>rangeStart = setHours tz startDate 0 0 0 0,
                     rangeEnd = setHours tz endDate 23 59 59 999\<rparr>\<rparr>"

lemma aggregateCommits_result:
  "aggregateCommits tz cs startDate endDate
     = Inr (fold (counted tz) (filteredCommits tz cs startDate endDate)
              (seeded tz startDate endDate))"
  by (simp add: aggregateCommits_def Let_def aggregateLoop_fold filteredCommits_def seeded_def)

lemma filteredCommits_in_range:
  "c \<in> set (filteredCommits tz cs startDate endDate)
     \<Longrightarrow> date c \<in> datesBetween (setHours tz startDate 0 0 0 0) (setHours tz endDate 23 59 59 999)"
  by (simp add: filteredCommits_def inRange_datesBetween)

text \<open>
  One dimension of the totals: a label function that depends on the local day only, the
  map seeded with it and the commits counted into it.
\<close>

lemma totals_dense:
  assumes inv: "\<And>t t'. Day (LocalTime tz t) = Day (LocalTime tz t') \<Longrightarrow> F (Some t) = F (Some t')"
    and seed: "\<And>l. map_of m l
                 = (if l \<in> F ` visited (setHours tz startDate 0 0 0 0)
                                      (setHours tz endDate 23 59 59 999)
                    then Some 0 else None)"
  shows "map_of (fold (\<lambda>c m. increment m (F (date c)))
                   (filteredCommits tz cs startDate endDate) m) l
           = (if l \<in> F ` datesBetween (setHours tz startDate 0 0 0 0)
                                       (setHours tz endDate 23 59 59 999)
              then Some (length (filter (\<lambda>c. F (date c) = l)
                                   (filteredCommits tz cs startDate endDate)))
              else None)"
proof -
  let ?K = "F ` datesBetween (setHours tz startDate 0 0 0 0) (setHours tz endDate 23 59 59 999)"
  let ?cs = "filteredCommits tz cs startDate endDate"
  have seed': "map_of m l = (if l \<in> ?K then Some 0 else None)"
    using seed[of l] labels_of_range[of tz F, OF inv] by simp
  show ?thesis
  proof (cases "length (filter (\<lambda>c. F (date c) = l) ?cs) = 0")
    case True
    then show ?thesis
      using seed' by (simp add: fold_increment[where f = "\<lambda>c. F (date c)"])
  next
    case False
    then obtain c where c: "c \<in> set ?cs" "F (date c) = l"
      by (auto simp: filter_empty_conv)
    then have "l \<in> ?K"
      using filteredCommits_in_range[OF c(1)] by blast
    then show ?thesis
      using False seed'
      by (simp add: fold_increment[where f = "\<lambda>c. F (date c)"] orZero_def)
  qed
qed

lemma totals_keys:
  assumes "\<And>l. map_of m l = (if l \<in> K then Some (n l) else None)"
  shows "fst ` set m = K"
  unfolding keys_dom using assms by (auto simp: dom_def)

lemma seeded_fields:
  "map_of (daily (seeded tz startDate endDate)) l
     = (if l \<in> formatDay tz ` visited (setHours tz startDate 0 0 0 0)
                                       (setHours tz endDate 23 59 59 999)
        then Some 0 else None)"
  "map_of (weekly (seeded tz startDate endDate)) l
     = (if l \<in> formatWeek tz ` visited (setHours tz startDate 0 0 0 0)
                                        (setHours tz endDate 23 59 59 999)
        then Some 0 else None)"
  "map_of (monthly (seeded tz startDate endDate)) l
     = (if l \<in> formatMonth tz ` visited (setHours tz startDate 0 0 0 0)
                                         (setHours tz endDate 23 59 59 999)
        then Some 0 else None)"
  "userDaily (seeded tz startDate endDate) = []"
  "userWeekly (seeded tz startDate endDate) = []"
  "userMonthly (seeded tz startDate endDate) = []"
  "dateRange (seeded tz startDate endDate)
     = \<lparr>rangeStart = setHours tz startDate 0 0 0 0, rangeEnd = setHours tz endDate 23 59 59 999\<rparr>"
  by (simp_all add: seeded_def initPeriods_daily initPeriods_weekly initPeriods_monthly
      initPeriods_users)

lemma daily_totals:
  "map_of (daily (fold (counted tz) (filteredCommits tz cs startDate endDate)
                    (seeded tz startDate endDate))) l
     = (if l \<in> formatDay tz ` datesBetween (setHours tz startDate 0 0 0 0)
                                            (setHours tz endDate 23 59 59 999)
        then Some (length (filter (\<lambda>c. formatDay tz (date c) = l)
                             (filteredCommits tz cs startDate endDate)))
        else None)"
  unfolding fold_counted_daily
  by (rule totals_dense[where F = "formatDay tz", OF formatDay_same_day seeded_fields(1)])

lemma weekly_totals:
  "map_of (weekly (fold (counted tz) (filteredCommits tz cs startDate endDate)
                     (seeded tz startDate endDate))) l
     = (if l \<in> formatWeek tz ` datesBetween (setHours tz startDate 0 0 0 0)
                                             (setHours tz endDate 23 59 59 999)
        then Some (length (filter (\<lambda>c. formatWeek tz (date c) = l)
                             (filteredCommits tz cs startDate endDate)))
        else None)"
  unfolding fold_counted_weekly
  by (rule totals_dense[where F = "formatWeek tz", OF formatWeek_same_day seeded_fields(2)])

lemma monthly_totals:
  "map_of (monthly (fold (counted tz) (filteredCommits tz cs startDate endDate)
                      (seeded tz startDate endDate))) l
     = (if l \<in> formatMonth tz ` datesBetween (setHours tz startDate 0 0 0 0)
                                              (setHours tz endDate 23 59 59 999)
        then Some (length (filter (\<lambda>c. formatMonth tz (date c) = l)
                             (filteredCommits tz cs startDate endDate)))
        else None)"
  unfolding fold_counted_monthly
  by (rule totals_dense[where F = "formatMonth tz", OF formatMonth_same_day seeded_fields(3)])

text \<open>
  C1. For every commit list and every pair of dates the call returns, and the key sets of
  its daily, weekly and monthly maps are the day, week and month labels of the valid
  dates from the normalised start to the normalised end, no more and no fewer; under each
  key stands the number of filtered commits with that label, zero for a period without a
  commit. The normalised start is the start at 0:00:00.000 of its local day, the
  normalised end the end at 23:59:59.999 of its local day. (When a date is invalid or the
  normalised start lies after the normalised end, there is no date between them and the
  maps are empty.)
\<close>

theorem aggregateCommits_dense:
  "\<exists>r. aggregateCommits tz cs startDate endDate = Inr r
     \<and> dateRange r = \<lparr>rangeStart = setHours tz startDate 0 0 0 0,
                       rangeEnd = setHours tz endDate 23 59 59 999\<rparr>
     \<and> fst ` set (daily r)
         = formatDay tz ` datesBetween (setHours tz startDate 0 0 0 0)
                                       (setHours tz endDate 23 59 59 999)
     \<and> fst ` set (weekly r)
         = formatWeek tz ` datesBetween (setHours tz startDate 0 0 0 0)
                                        (setHours tz endDate 23 59 59 999)
     \<and> fst ` set (monthly r)
         = formatMonth tz ` datesBetween (setHours tz startDate 0 0 0 0)
                                         (setHours tz endDate 23 59 59 999)
     \<and> (\<forall>l. map_of (daily r) l
            = (if l \<in> fst ` set (daily r)
               then Some (length (filter (\<lambda>c. formatDay tz (date c) = l)
                                    (filteredCommits tz cs startDate endDate)))
               else None))
     \<and> (\<forall>l. map_of (weekly r) l
            = (if l \<in> fst ` set (weekly r)
               then Some (length (filter (\<lambda>c. formatWeek tz (date c) = l)
                                    (filteredCommits tz cs startDate endDate)))
               else None))
     \<and> (\<forall>l. map_of (monthly r) l
            = (if l \<in> fst ` set (monthly r)
               then Some (length (filter (\<lambda>c. formatMonth tz (date c) = l)
                                    (filteredCommits tz cs startDate endDate)))
               else None))"
proof -
  define r where "r = fold (counted tz) (filteredCommits tz cs startDate endDate)
                        (seeded tz startDate endDate)"
  have res: "aggregateCommits tz cs startDate endDate = Inr r"
    by (simp add: aggregateCommits_result r_def)
  have range: "dateRange r = \<lparr>rangeStart = setHours tz startDate 0 0 0 0,
                                rangeEnd = setHours tz endDate 23 59 59 999\<rparr>"
    by (simp add: r_def fold_counted_dateRange seeded_fields)
  have kd: "fst ` set (daily r)
      = formatDay tz ` datesBetween (setHours tz startDate 0 0 0 0)
                                    (setHours tz endDate 23 59 59 999)"
    unfolding r_def by (rule totals_keys) (rule daily_totals)
  have kw: "fst ` set (weekly r)
      = formatWeek tz ` datesBetween (setHours tz startDate 0 0 0 0)
                                     (setHours tz endDate 23 59 59 999)"
    unfolding r_def by (rule totals_keys) (rule weekly_totals)
  have km: "fst ` set (monthly r)
      = formatMonth tz ` datesBetween (setHours tz startDate 0 0 0 0)
                                      (setHours tz endDate 23 59 59 999)"
    unfolding r_def by (rule totals_keys) (rule monthly_totals)
  have vd: "\<forall>l. map_of (daily r) l
      = (if l \<in> fst ` set (daily r)
         then Some (length (filter (\<lambda>c. formatDay tz (date c) = l)
                              (filteredCommits tz cs startDate endDate)))
         else None)"
    unfolding kd unfolding r_def by (rule allI) (rule daily_totals)
  have vw: "\<forall>l. map_of (weekly r) l
      = (if l \<in> fst ` set (weekly r)
         then Some (length (filter (\<lambda>c. formatWeek tz (date c) = l)
                              (filteredCommits tz cs startDate endDate)))
         else None)"
    unfolding kw unfolding r_def by (rule allI) (rule weekly_totals)
  have vm: "\<forall>l. map_of (monthly r) l
      = (if l \<in> fst ` set (monthly r)
         then Some (length (filter (\<lambda>c. formatMonth tz (date c) = l)
                              (filteredCommits tz cs startDate endDate)))
         else None)"
    unfolding km unfolding r_def by (rule allI) (rule monthly_totals)
  show ?thesis
    using res range kd kw km vd vw vm by blast
qed

subsection \<open>The maps per author\<close>

lemma userCount_empty: "userCount [] a l = None"
  by (simp add: userCount_def)

lemma userCount_keys:
  assumes "\<And>l. userCount m a l = (if n l = 0 then None else Some (n l))"
    and "map_of m a = Some im"
  shows "fst ` set im = {l. n l \<noteq> 0}"
proof -
  have "map_of im l = (if n l = 0 then None else Some (n l))" for l
    using assms(1)[of l] assms(2) by (simp add: userCount_def)
  then show ?thesis unfolding keys_dom by (auto simp: dom_def)
qed

lemma filter_labels:
  "{l. length (filter (\<lambda>c. g c = a \<and> f c = l) cs) \<noteq> 0} = f ` {c \<in> set cs. g c = a}"
  by (auto simp: filter_empty_conv)

text \<open>
  One dimension of the maps per author, started from the empty map: the authors are those
  of the commits, and an author's map holds the labels of that author's commits with
  their counts.
\<close>

lemma per_author_sparse:
  fixes f :: "commit \<Rightarrow> string" and cs :: "commit list"
  defines "m \<equiv> fold (\<lambda>c m. incrementUser m (author c) (f c)) cs []"
  shows "fst ` set m = author ` set cs"
    and "userCount m a l
           = (if length (filter (\<lambda>c. author c = a \<and> f c = l) cs) = 0 then None
              else Some (length (filter (\<lambda>c. author c = a \<and> f c = l) cs)))"
    and "(case map_of m a of
            None \<Rightarrow> a \<notin> author ` set cs
          | Some im \<Rightarrow> a \<in> author ` set cs \<and> fst ` set im = f ` {c \<in> set cs. author c = a})"
proof -
  show keys: "fst ` set m = author ` set cs"
    unfolding m_def by (simp add: keys_fold_incrementUser)
  show count: "userCount m a l
      = (if length (filter (\<lambda>c. author c = a \<and> f c = l) cs) = 0 then None
         else Some (length (filter (\<lambda>c. author c = a \<and> f c = l) cs)))" for l
    unfolding m_def
    by (simp add: fold_incrementUser[where g = author and f = f] userCount_empty orZero_def)
  show "(case map_of m a of
            None \<Rightarrow> a \<notin> author ` set cs
          | Some im \<Rightarrow> a \<in> author ` set cs \<and> fst ` set im = f ` {c \<in> set cs. author c = a})"
  proof (cases "map_of m a")
    case None
    then have "a \<notin> dom (map_of m)" by (simp add: dom_def)
    then show ?thesis using None keys by (simp add: keys_dom)
  next
    case (Some im)
    then have "a \<in> dom (map_of m)" by (simp add: dom_def)
    then have "a \<in> author ` set cs" using keys by (simp add: keys_dom)
    moreover have "fst ` set im = f ` {c \<in> set cs. author c = a}"
      using userCount_keys[where m = m and a = a
          and n = "\<lambda>l. length (filter (\<lambda>c. author c = a \<and> f c = l) cs)", OF count Some]
      by (simp only: filter_labels)
    ultimately show ?thesis using Some by simp
  qed
qed

subsection \<open>The three commits of 1 and 2 March 2024\<close>

lemma labels_2024_03_01:
  assumes "Day (LocalTime tz t) = 19783"
  shows "formatDay tz (Some t) = ''2024-03-01''"
    and "formatWeek tz (Some t) = ''2024-W09''"
    and "formatMonth tz (Some t) = ''2024-03''"
proof -
  have y: "YearFromTime (LocalTime tz t) = 2024"
    using assms by (simp add: YearFromTime_def YearFromDay_def yearIn400_def yearIn100_def)
  have w: "DayWithinYear (LocalTime tz t) = 60" "InLeapYear (LocalTime tz t) = 1"
    using assms by (simp_all add: DayWithinYear_def InLeapYear_def y DayFromYear_def DaysInYear_def)
  have m: "MonthFromTime (LocalTime tz t) = 2"
    by (simp add: MonthFromTime_def w monthOfDay_def)
  have d: "DateFromTime (LocalTime tz t) = 1"
    by (simp add: DateFromTime_def w m monthStart_def)
  show "formatDay tz (Some t) = ''2024-03-01''"
    by (simp add: formatDay_def getFullYear_def getMonth_def getDate_def num_add_def y m d
        numToString_def natToString.simps digitChar_def padStart2_def)
  show "formatMonth tz (Some t) = ''2024-03''"
    by (simp add: formatMonth_def getFullYear_def getMonth_def num_add_def y m
        numToString_def natToString.simps digitChar_def padStart2_def)
  have th: "thursdayOfWeek 19783 = 19782"
    by (simp add: thursdayOfWeek_def isoWeekday_def)
  have ty: "YearFromDay 19782 = 2024"
    by (simp add: YearFromDay_def yearIn400_def yearIn100_def)
  have ys: "MakeDay 2024 0 1 = 19723"
    by (simp add: MakeDay_def DayFromYear_def DaysInYear_def monthStart_def)
  show "formatWeek tz (Some t) = ''2024-W09''"
    by (simp add: formatWeek_def getIsoWeek_valid assms th ty ys
        numToString_def natToString.simps digitChar_def padStart2_def)
qed

lemma labels_2024_03_02:
  assumes "Day (LocalTime tz t) = 19784"
  shows "formatDay tz (Some t) = ''2024-03-02''"
    and "formatWeek tz (Some t) = ''2024-W09''"
    and "formatMonth tz (Some t) = ''2024-03''"
proof -
  have y: "YearFromTime (LocalTime tz t) = 2024"
    using assms by (simp add: YearFromTime_def YearFromDay_def yearIn400_def yearIn100_def)
  have w: "DayWithinYear (LocalTime tz t) = 61" "InLeapYear (LocalTime tz t) = 1"
    using assms by (simp_all add: DayWithinYear_def InLeapYear_def y DayFromYear_def DaysInYear_def)
  have m: "MonthFromTime (LocalTime tz t) = 2"
    by (simp add: MonthFromTime_def w monthOfDay_def)
  have d: "DateFromTime (LocalTime tz t) = 2"
    by (simp add: DateFromTime_def w m monthStart_def)
  show "formatDay tz (Some t) = ''2024-03-02''"
    by (simp add: formatDay_def getFullYear_def getMonth_def getDate_def num_add_def y m d
        numToString_def natToString.simps digitChar_def padStart2_def)
  show "formatMonth tz (Some t) = ''2024-03''"
    by (simp add: formatMonth_def getFullYear_def getMonth_def num_add_def y m
        numToString_def natToString.simps digitChar_def padStart2_def)
  have th: "thursdayOfWeek 19784 = 19782"
    by (simp add: thursdayOfWeek_def isoWeekday_def)
  have ty: "YearFromDay 19782 = 2024"
    by (simp add: YearFromDay_def yearIn400_def yearIn100_def)
  have ys: "MakeDay 2024 0 1 = 19723"
    by (simp add: MakeDay_def DayFromYear_def DaysInYear_def monthStart_def)
  show "formatWeek tz (Some t) = ''2024-W09''"
    by (simp add: formatWeek_def getIsoWeek_valid assms th ty ys
        numToString_def natToString.simps digitChar_def padStart2_def)
qed

lemma example_days:
  "Day (LocalTime 0 1709251200000) = 19783"
  "Day (LocalTime 0 1709287200000) = 19783"
  "Day (LocalTime 0 1709305200000) = 19783"
  "Day (LocalTime 0 1709337600000) = 19784"
  "Day (LocalTime 0 1709370000000) = 19784"
  by (simp_all add: Day_def LocalTime_def msPerDay_def)

lemmas example_labels =
  labels_2024_03_01[OF example_days(1)] labels_2024_03_01[OF example_days(2)]
  labels_2024_03_01[OF example_days(3)] labels_2024_03_02[OF example_days(4)]
  labels_2024_03_02[OF example_days(5)]

lemma example_range:
  "setHours 0 (Some 1709251200000) 0 0 0 0 = Some 1709251200000"
  "setHours 0 (Some 1709337600000) 23 59 59 999 = Some 1709423999999"
  by (simp_all add: setHours_valid example_days MakeTime_def msPerDay_def)

lemma example_seeded:
  "seeded 0 (Some 1709251200000) (Some 1709337600000)
     = \<lparr>daily = [(''2024-03-01'', 0), (''2024-03-02'', 0)],
        weekly = [(''2024-W09'', 0)],
        monthly = [(''2024-03'', 0)],
        userDaily = [], userWeekly = [], userMonthly = [],
        dateRange = \<lparr>rangeStart = Some 1709251200000, rangeEnd = Some 1709423999999\<rparr>\<rparr>"
  by (simp add: seeded_def example_range initPeriods_step initPeriods_stop date_le_def
      msPerDay_def example_labels)

lemma example_aggregate:
  "aggregateCommits 0
     [\<lparr>revision = 1, author = ''a'', date = Some 1709287200000, message = ''''\<rparr>,
      \<lparr>revision = 2, author = ''b'', date = Some 1709305200000, message = ''''\<rparr>,
      \<lparr>revision = 3, author = ''a'', date = Some 1709370000000, message = ''''\<rparr>]
     (Some 1709251200000) (Some 1709337600000)
   = Inr \<lparr>daily = [(''2024-03-01'', 2), (''2024-03-02'', 1)],
          weekly = [(''2024-W09'', 3)],
          monthly = [(''2024-03'', 3)],
          userDaily = [(''a'', [(''2024-03-01'', 1), (''2024-03-02'', 1)]),
                       (''b'', [(''2024-03-01'', 1)])],
          userWeekly = [(''a'', [(''2024-W09'', 2)]), (''b'', [(''2024-W09'', 1)])],
          userMonthly = [(''a'', [(''2024-03'', 2)]), (''b'', [(''2024-03'', 1)])],
          dateRange = \<lparr>rangeStart = Some 1709251200000, rangeEnd = Some 1709423999999\<rparr>\<rparr>"
  by (simp add: aggregateCommits_result filteredCommits_def inRange_def date_ge_def date_le_def
      example_range example_seeded counted_def example_labels increment_def incrementUser_def
      ensureAuthor_def map_has_def map_get_def)

text \<open>
  C6. The maps per author are not seeded. For every call, the authors that appear in the
  maps per day, per week and per month are the authors of the filtered commits and no
  others; the map of such an author holds the labels of the periods in which that author
  has a filtered commit and no others, each with the number of those commits. For the
  three commits of the example (in the UTC zone, the range given by the two midnights
  2024-03-01T00:00Z and 2024-03-02T00:00Z) the day totals are 2 and 1, the map per day of
  author a holds both days with 1 each, and the map per day of author b holds
  2024-03-01 only.
\<close>

theorem aggregateCommits_per_author:
  "\<exists>r. aggregateCommits tz cs startDate endDate = Inr r
     \<and> fst ` set (userDaily r) = author ` set (filteredCommits tz cs startDate endDate)
     \<and> fst ` set (userWeekly r) = author ` set (filteredCommits tz cs startDate endDate)
     \<and> fst ` set (userMonthly r) = author ` set (filteredCommits tz cs startDate endDate)
     \<and> (\<forall>a. case map_of (userDaily r) a of
               None \<Rightarrow> a \<notin> author ` set (filteredCommits tz cs startDate endDate)
             | Some im \<Rightarrow>
                 a \<in> author ` set (filteredCommits tz cs startDate endDate)
                 \<and> fst ` set im
                     = (\<lambda>c. formatDay tz (date c))
                         ` {c \<in> set (filteredCommits tz cs startDate endDate). author c = a})
     \<and> (\<forall>a. case map_of (userWeekly r) a of
               None \<Rightarrow> a \<notin> author ` set (filteredCommits tz cs startDate endDate)
             | Some im \<Rightarrow>
                 a \<in> author ` set (filteredCommits tz cs startDate endDate)
                 \<and> fst ` set im
                     = (\<lambda>c. formatWeek tz (date c))
                         ` {c \<in> set (filteredCommits tz cs startDate endDate). author c = a})
     \<and> (\<forall>a. case map_of (userMonthly r) a of
               None \<Rightarrow> a \<notin> author ` set (filteredCommits tz cs startDate endDate)
             | Some im \<Rightarrow>
                 a \<in> author ` set (filteredCommits tz cs startDate endDate)
                 \<and> fst ` set im
                     = (\<lambda>c. formatMonth tz (date c))
                         ` {c \<in> set (filteredCommits tz cs startDate endDate). author c = a})
     \<and> (\<forall>a l. userCount (userDaily r) a l
            = (if length (filter (\<lambda>c. author c = a \<and> formatDay tz (date c) = l)
                            (filteredCommits tz cs startDate endDate)) = 0
               then None
               else Some (length (filter (\<lambda>c. author c = a \<and> formatDay tz (date c) = l)
                                    (filteredCommits tz cs startDate endDate)))))
     \<and> aggregateCommits 0
          [\<lparr>revision = 1, author = ''a'', date = Some 1709287200000, message = ''''\<rparr>,
           \<lparr>revision = 2, author = ''b'', date = Some 1709305200000, message = ''''\<rparr>,
           \<lparr>revision = 3, author = ''a'', date = Some 1709370000000, message = ''''\<rparr>]
          (Some 1709251200000) (Some 1709337600000)
        = Inr \<lparr>daily = [(''2024-03-01'', 2), (''2024-03-02'', 1)],
               weekly = [(''2024-W09'', 3)],
               monthly = [(''2024-03'', 3)],
               userDaily = [(''a'', [(''2024-03-01'', 1), (''2024-03-02'', 1)]),
                            (''b'', [(''2024-03-01'', 1)])],
               userWeekly = [(''a'', [(''2024-W09'', 2)]), (''b'', [(''2024-W09'', 1)])],
               userMonthly = [(''a'', [(''2024-03'', 2)]), (''b'', [(''2024-03'', 1)])],
               dateRange = \<lparr>rangeStart = Some 1709251200000,
                             rangeEnd = Some 1709423999999\<rparr>\<rparr>"
proof -
  define F where "F = filteredCommits tz cs startDate endDate"
  define r where "r = fold (counted tz) F (seeded tz startDate endDate)"
  have res: "aggregateCommits tz cs startDate endDate = Inr r"
    by (simp add: aggregateCommits_result r_def F_def)
  have ud: "userDaily r
      = fold (\<lambda>c m. incrementUser m (author c) (formatDay tz (date c))) F []"
    by (simp add: r_def fold_counted_userDaily seeded_fields)
  have uw: "userWeekly r
      = fold (\<lambda>c m. incrementUser m (author c) (formatWeek tz (date c))) F []"
    by (simp add: r_def fold_counted_userWeekly seeded_fields)
  have um: "userMonthly r
      = fold (\<lambda>c m. incrementUser m (author c) (formatMonth tz (date c))) F []"
    by (simp add: r_def fold_counted_userMonthly seeded_fields)
  have k1: "fst ` set (userDaily r) = author ` set F"
    unfolding ud by (rule per_author_sparse(1))
  have k2: "fst ` set (userWeekly r) = author ` set F"
    unfolding uw by (rule per_author_sparse(1))
  have k3: "fst ` set (userMonthly r) = author ` set F"
    unfolding um by (rule per_author_sparse(1))
  have m1: "\<forall>a. case map_of (userDaily r) a of
               None \<Rightarrow> a \<notin> author ` set F
             | Some im \<Rightarrow> a \<in> author ` set F
                 \<and> fst ` set im = (\<lambda>c. formatDay tz (date c)) ` {c \<in> set F. author c = a}"
    unfolding ud by (rule allI) (rule per_author_sparse(3))
  have m2: "\<forall>a. case map_of (userWeekly r) a of
               None \<Rightarrow> a \<notin> author ` set F
             | Some im \<Rightarrow> a \<in> author ` set F
                 \<and> fst ` set im = (\<lambda>c. formatWeek tz (date c)) ` {c \<in> set F. author c = a}"
    unfolding uw by (rule allI) (rule per_author_sparse(3))
  have m3: "\<forall>a. case map_of (userMonthly r) a of
               None \<Rightarrow> a \<notin> author ` set F
             | Some im \<Rightarrow> a \<in> author ` set F
                 \<and> fst ` set im = (\<lambda>c. formatMonth tz (date c)) ` {c \<in> set F. author c = a}"
    unfolding um by (rule allI) (rule per_author_sparse(3))
  have c1: "\<forall>a l. userCount (userDaily r) a l
      = (if length (filter (\<lambda>c. author c = a \<and> formatDay tz (date c) = l) F) = 0
         then None
         else Some (length (filter (\<lambda>c. author c = a \<and> formatDay tz (date c) = l) F)))"
    unfolding ud by (intro allI) (rule per_author_sparse(2))
  show ?thesis
    unfolding F_def[symmetric]
    using res k1 k2 k3 m1 m2 m3 c1 example_aggregate by blast
qed

section \<open>The last-30-days view of the dashboard aggregation (dashboard aggregator.ts)\<close>

text \<open>
  The dashboard version of \<^verbatim>\<open>aggregateCommits\<close> filters the commits as the fixed-range
  version does and builds five views. The model holds the first one, \<^verbatim>\<open>last30Days\<close>;
  \<^verbatim>\<open>new Date()\<close> is the valid instant \<open>now\<close>.
\<close>

definition thirtyDaysAgo :: "int \<Rightarrow> int \<Rightarrow> jsdate" where
  "thirtyDaysAgo tz now =
     setHours tz (setDate tz (Some now) (num_sub (getDate tz (Some now)) (Some 30))) 0 0 0 0"

text \<open>
  \<^verbatim>\<open>for (let i = 0; i < 30; i++)\<close>: a copy of \<open>thirtyDaysAgo\<close> is moved on by \<open>i\<close> days and
  its day label set to 0.
\<close>

definition seedLast30Days :: "int \<Rightarrow> jsdate \<Rightarrow> (string \<times> nat) list" where
  "seedLast30Days tz start =
     fold (\<lambda>i m. map_set m
                    (formatDay tz (setDate tz start (num_add (getDate tz start) (Some (int i)))))
                    0)
          [0..<30] []"

text \<open>
  \<^verbatim>\<open>for (const commit of filteredCommits)\<close>: a commit at or after \<open>thirtyDaysAgo\<close> is
  counted under its day label.
\<close>

definition last30Days ::
  "int \<Rightarrow> int \<Rightarrow> commit list \<Rightarrow> jsdate \<Rightarrow> jsdate \<Rightarrow> (string \<times> nat) list" where
  "last30Days tz now cs startDate endDate =
     fold (\<lambda>c m. if date_ge (date c) (thirtyDaysAgo tz now)
                  then increment m (formatDay tz (date c)) else m)
          (filteredCommits tz cs startDate endDate)
          (seedLast30Days tz (thirtyDaysAgo tz now))"

subsection \<open>What the view holds\<close>

lemma thirtyDaysAgo_valid:
  "thirtyDaysAgo tz now = Some ((Day (LocalTime tz now) - 30) * msPerDay - tz)"
proof -
  have "num_sub (getDate tz (Some now)) (Some 30)
          = Some (DateFromTime (LocalTime tz now) + (- 30))"
    by (simp add: getDate_def num_sub_def)
  then have "setDate tz (Some now) (num_sub (getDate tz (Some now)) (Some 30))
          = Some (now + (- 30) * msPerDay)"
    by (simp only: setDate_date_plus)
  moreover have "Day (LocalTime tz (now + (- 30) * msPerDay)) = Day (LocalTime tz now) - 30"
    by (simp add: Day_def LocalTime_def msPerDay_def)
  ultimately show ?thesis
    by (simp add: thirtyDaysAgo_def setHours_midnight)
qed

lemma keys_fold_map_set:
  "fst ` set (fold (\<lambda>i m. map_set m (f i) v) is m) = fst ` set m \<union> f ` set is"
  by (induction "is" arbitrary: m) (auto simp: keys_map_set)

lemma seedLast30Days_valid:
  "seedLast30Days tz (Some t)
     = fold (\<lambda>i m. map_set m (formatDay tz (Some (t + int i * msPerDay))) 0) [0..<30] []"
  by (simp add: seedLast30Days_def setDate_getDate)

lemma DayFromYear_step: "DayFromYear y + 364 \<le> DayFromYear (y + 1)"
proof -
  have a: "(y - 1969) div 4 \<le> (y + 1 - 1969) div 4" by linarith
  have b: "(y + 1 - 1901) div 100 \<le> (y - 1901) div 100 + 1" by linarith
  have c: "(y - 1601) div 400 \<le> (y + 1 - 1601) div 400" by linarith
  define a1 where "a1 = (y - 1969) div 4"
  define a2 where "a2 = (y + 1 - 1969) div 4"
  define b1 where "b1 = (y - 1901) div 100"
  define b2 where "b2 = (y + 1 - 1901) div 100"
  define c1 where "c1 = (y - 1601) div 400"
  define c2 where "c2 = (y + 1 - 1601) div 400"
  have a': "a1 \<le> a2" using a by (simp only: a1_def a2_def)
  have b': "b2 \<le> b1 + 1" using b by (simp only: b1_def b2_def)
  have c': "c1 \<le> c2" using c by (simp only: c1_def c2_def)
  have "365 * (y - 1970) + a1 - b1 + c1 + 364 \<le> 365 * (y + 1 - 1970) + a2 - b2 + c2"
    using a' b' c' by (simp add: algebra_simps)
  then show ?thesis
    unfolding DayFromYear_def a1_def a2_def b1_def b2_def c1_def c2_def .
qed

lemma DayFromYear_mono: "y \<le> y' \<Longrightarrow> DayFromYear y \<le> DayFromYear y'"
proof (induction "nat (y' - y)" arbitrary: y')
  case 0
  then show ?case by simp
next
  case (Suc n)
  then have "n = nat (y' - 1 - y)" "y \<le> y' - 1" by linarith+
  then have "DayFromYear y \<le> DayFromYear (y' - 1)" using Suc.hyps(1) by blast
  moreover have "DayFromYear (y' - 1) \<le> DayFromYear y'"
    using DayFromYear_step[of "y' - 1"] by simp
  ultimately show ?case by linarith
qed

text \<open>The executable year is the only year whose days hold the day.\<close>

lemma YearFromDay_unique:
  assumes "DayFromYear y \<le> d" and "d < DayFromYear (y + 1)"
  shows "YearFromDay d = y"
proof (rule ccontr)
  assume ne: "YearFromDay d \<noteq> y"
  have b: "DayFromYear (YearFromDay d) \<le> d" "d < DayFromYear (YearFromDay d + 1)"
    using YearFromDay_bounds[of d] by simp_all
  show False
  proof (cases "YearFromDay d < y")
    case True
    then have "DayFromYear (YearFromDay d + 1) \<le> DayFromYear y"
      by (intro DayFromYear_mono) simp
    then show False using b(2) assms(1) by linarith
  next
    case False
    then have "DayFromYear (y + 1) \<le> DayFromYear (YearFromDay d)"
      using ne by (intro DayFromYear_mono) simp
    then show False using b(1) assms(2) by linarith
  qed
qed

lemma label_march_2024:
  assumes "19783 \<le> Day (LocalTime tz t)" and "Day (LocalTime tz t) \<le> 19813"
  shows "formatDay tz (Some t)
           = ''2024-03-'' @ padStart2 (numToString (Some (Day (LocalTime tz t) - 19782)))"
proof -
  have "DayFromYear 2024 = 19723" "DayFromYear (2024 + 1) = 20089"
    by (simp_all add: DayFromYear_def)
  then have y: "YearFromTime (LocalTime tz t) = 2024"
    unfolding YearFromTime_def using assms by (intro YearFromDay_unique) simp_all
  have w: "DayWithinYear (LocalTime tz t) = Day (LocalTime tz t) - 19723"
      "InLeapYear (LocalTime tz t) = 1"
    by (simp_all add: DayWithinYear_def InLeapYear_def y DayFromYear_def DaysInYear_def)
  have m: "MonthFromTime (LocalTime tz t) = 2"
    using assms by (simp add: MonthFromTime_def w monthOfDay_def)
  have d: "DateFromTime (LocalTime tz t) = Day (LocalTime tz t) - 19782"
    by (simp add: DateFromTime_def w m monthStart_def)
  show ?thesis
    by (simp add: formatDay_def getFullYear_def getMonth_def getDate_def num_add_def y m d
        padStart2_def)
       (simp add: numToString_def natToString.simps digitChar_def)
qed

text \<open>
  The seeded buckets are the thirty days that start thirty days before the day of \<open>now\<close>:
  the last of them is the day before the day of \<open>now\<close>.
\<close>

lemma seedLast30Days_keys:
  "fst ` set (seedLast30Days tz (thirtyDaysAgo tz now))
     = (\<lambda>i. formatDay tz (Some ((Day (LocalTime tz now) - 30 + int i) * msPerDay - tz)))
         ` {0..<30}"
proof -
  have e: "(Day (LocalTime tz now) - 30) * msPerDay - tz + int i * msPerDay
          = (Day (LocalTime tz now) - 30 + int i) * msPerDay - tz" for i
    by (simp add: algebra_simps)
  have "fst ` set (seedLast30Days tz (thirtyDaysAgo tz now))
      = (\<lambda>i. formatDay tz (Some ((Day (LocalTime tz now) - 30) * msPerDay - tz
                                     + int i * msPerDay))) ` {0..<30}"
    by (simp add: thirtyDaysAgo_valid seedLast30Days_valid keys_fold_map_set)
  then show ?thesis by (simp only: e)
qed

lemma map_of_fold_map_set:
  "map_of (fold (\<lambda>i m. map_set m (f i) v) is m) l
     = (if l \<in> f ` set is then Some v else map_of m l)"
  by (induction "is" arbitrary: m) (auto simp: map_of_map_set)

lemma fold_if_filter:
  "fold (\<lambda>c m. if p c then g c m else m) cs m = fold g (filter p cs) m"
  by (induction cs arbitrary: m) simp_all

text \<open>
  Every filtered commit at or after local midnight thirty days before the day of \<open>now\<close> is
  counted under its day label, seeded or not, and no other commit is.
\<close>

lemma last30Days_counts:
  "map_of (last30Days tz now cs startDate endDate) l
     = (if length (filter (\<lambda>c. formatDay tz (date c) = l)
                     (filter (\<lambda>c. date_ge (date c) (thirtyDaysAgo tz now))
                        (filteredCommits tz cs startDate endDate))) = 0
        then map_of (seedLast30Days tz (thirtyDaysAgo tz now)) l
        else Some (orZero (map_of (seedLast30Days tz (thirtyDaysAgo tz now)) l)
                   + length (filter (\<lambda>c. formatDay tz (date c) = l)
                               (filter (\<lambda>c. date_ge (date c) (thirtyDaysAgo tz now))
                                  (filteredCommits tz cs startDate endDate)))))"
  unfolding last30Days_def
  by (simp only: fold_if_filter[where g = "\<lambda>c m. increment m (formatDay tz (date c))"]
      fold_increment[where f = "\<lambda>c. formatDay tz (date c)"])

lemma last30Days_keys:
  "fst ` set (last30Days tz now cs startDate endDate)
     = (\<lambda>i. formatDay tz (Some ((Day (LocalTime tz now) - 30 + int i) * msPerDay - tz)))
         ` {0..<30}
       \<union> (\<lambda>c. formatDay tz (date c))
           ` {c \<in> set (filteredCommits tz cs startDate endDate).
                date_ge (date c) (thirtyDaysAgo tz now)}"
proof -
  have "fst ` set (fold (\<lambda>c m. increment m (f c)) xs m) = fst ` set m \<union> f ` set xs"
    for f :: "commit \<Rightarrow> string" and xs m
    by (induction xs arbitrary: m) (auto simp: increment_def keys_map_set)
  then show ?thesis
    unfolding last30Days_def
    by (simp only: fold_if_filter[where g = "\<lambda>c m. increment m (formatDay tz (date c))"]
        seedLast30Days_keys set_filter)
qed

subsection \<open>The view on 31 March 2024\<close>

lemma march_31_noon:
  "thirtyDaysAgo 0 1711886400000 = Some 1709251200000"
  "setHours 0 (Some 1709251200000) 0 0 0 0 = Some 1709251200000"
  "setHours 0 (Some 1711886400000) 23 59 59 999 = Some 1711929599999"
  by (simp_all add: thirtyDaysAgo_valid setHours_valid Day_def LocalTime_def msPerDay_def
      MakeTime_def)

lemma march_seed:
  "seedLast30Days 0 (Some 1709251200000)
     = [(''2024-03-01'', 0), (''2024-03-02'', 0), (''2024-03-03'', 0), (''2024-03-04'', 0),
        (''2024-03-05'', 0), (''2024-03-06'', 0), (''2024-03-07'', 0), (''2024-03-08'', 0),
        (''2024-03-09'', 0), (''2024-03-10'', 0), (''2024-03-11'', 0), (''2024-03-12'', 0),
        (''2024-03-13'', 0), (''2024-03-14'', 0), (''2024-03-15'', 0), (''2024-03-16'', 0),
        (''2024-03-17'', 0), (''2024-03-18'', 0), (''2024-03-19'', 0), (''2024-03-20'', 0),
        (''2024-03-21'', 0), (''2024-03-22'', 0), (''2024-03-23'', 0), (''2024-03-24'', 0),
        (''2024-03-25'', 0), (''2024-03-26'', 0), (''2024-03-27'', 0), (''2024-03-28'', 0),
        (''2024-03-29'', 0), (''2024-03-30'', 0)]"
  by (simp add: seedLast30Days_valid upt_rec label_march_2024 Day_def LocalTime_def msPerDay_def
      padStart2_def numToString_def natToString.simps digitChar_def)

text \<open>
  C2, at an input where the code departs from it. In the UTC zone at noon of 31 March 2024
  (1711886400000 ms), with the range from 1 March to that instant: without commits the
  view holds the thirty days from 1 March to 30 March, so it starts thirty days before
  today and not twenty-nine, and today is not among its keys; a commit made at that
  instant is counted and adds today as a thirty-first key.
\<close>

theorem last30Days_omits_today:
  "last30Days 0 1711886400000 [] (Some 1709251200000) (Some 1711886400000)
     = [(''2024-03-01'', 0), (''2024-03-02'', 0), (''2024-03-03'', 0), (''2024-03-04'', 0),
        (''2024-03-05'', 0), (''2024-03-06'', 0), (''2024-03-07'', 0), (''2024-03-08'', 0),
        (''2024-03-09'', 0), (''2024-03-10'', 0), (''2024-03-11'', 0), (''2024-03-12'', 0),
        (''2024-03-13'', 0), (''2024-03-14'', 0), (''2024-03-15'', 0), (''2024-03-16'', 0),
        (''2024-03-17'', 0), (''2024-03-18'', 0), (''2024-03-19'', 0), (''2024-03-20'', 0),
        (''2024-03-21'', 0), (''2024-03-22'', 0), (''2024-03-23'', 0), (''2024-03-24'', 0),
        (''2024-03-25'', 0), (''2024-03-26'', 0), (''2024-03-27'', 0), (''2024-03-28'', 0),
        (''2024-03-29'', 0), (''2024-03-30'', 0)]
   \<and> formatDay 0 (Some 1711886400000) = ''2024-03-31''
   \<and> last30Days 0 1711886400000
        [\<lparr>revision = 1, author = ''a'', date = Some 1711886400000, message = ''''\<rparr>]
        (Some 1709251200000) (Some 1711886400000)
     = [(''2024-03-01'', 0), (''2024-03-02'', 0), (''2024-03-03'', 0), (''2024-03-04'', 0),
        (''2024-03-05'', 0), (''2024-03-06'', 0), (''2024-03-07'', 0), (''2024-03-08'', 0),
        (''2024-03-09'', 0), (''2024-03-10'', 0), (''2024-03-11'', 0), (''2024-03-12'', 0),
        (''2024-03-13'', 0), (''2024-03-14'', 0), (''2024-03-15'', 0), (''2024-03-16'', 0),
        (''2024-03-17'', 0), (''2024-03-18'', 0), (''2024-03-19'', 0), (''2024-03-20'', 0),
        (''2024-03-21'', 0), (''2024-03-22'', 0), (''2024-03-23'', 0), (''2024-03-24'', 0),
        (''2024-03-25'', 0), (''2024-03-26'', 0), (''2024-03-27'', 0), (''2024-03-28'', 0),
        (''2024-03-29'', 0), (''2024-03-30'', 0), (''2024-03-31'', 1)]"
proof -
  have today: "formatDay 0 (Some 1711886400000) = ''2024-03-31''"
    by (simp add: label_march_2024 Day_def LocalTime_def msPerDay_def
        padStart2_def numToString_def natToString.simps digitChar_def)
  have none: "filteredCommits 0 [] (Some 1709251200000) (Some 1711886400000) = []"
    by (simp add: filteredCommits_def)
  have one: "filteredCommits 0
        [\<lparr>revision = 1, author = ''a'', date = Some 1711886400000, message = ''''\<rparr>]
        (Some 1709251200000) (Some 1711886400000)
      = [\<lparr>revision = 1, author = ''a'', date = Some 1711886400000, message = ''''\<rparr>]"
    by (simp add: filteredCommits_def inRange_def march_31_noon date_ge_def date_le_def)
  show ?thesis
    by (simp add: last30Days_def none one march_31_noon march_seed today date_ge_def
        increment_def map_get_def)
qed

end
